theory Spec2Isabelle
  imports Main "HOL-Library.Word"
begin

unbundle bit_operations_syntax

section \<open>JavaScript values used by the ingest scripts\<close>

text \<open>
  Strings are modelled as \<^typ>\<open>string\<close>, holding the UTF-8 bytes of the JavaScript
  string (a \<^typ>\<open>char\<close> is one byte). A value that may be \<open>undefined\<close> or \<open>null\<close>
  is a \<^typ>\<open>string option\<close>. The scripts test such values for truthiness with \<open>!x\<close>,
  \<open>if (x)\<close> and \<open>x || y\<close>: \<open>undefined\<close>, \<open>null\<close> and the empty string are falsy.
\<close>

definition truthy :: "string option \<Rightarrow> bool" where
  "truthy x = (case x of None \<Rightarrow> False | Some s \<Rightarrow> s \<noteq> [])"

text \<open>\<open>a || b\<close> on possibly absent strings.\<close>

definition js_or :: "string option \<Rightarrow> string option \<Rightarrow> string option" where
  "js_or a b = (if truthy a then a else b)"

text \<open>\<open>a || 'literal'\<close>: the right operand is a string, so the result is one.\<close>

definition js_or_str :: "string option \<Rightarrow> string \<Rightarrow> string" where
  "js_or_str a d = (case a of None \<Rightarrow> d | Some s \<Rightarrow> if s \<noteq> [] then s else d)"

text \<open>
  \<open>String.prototype.split(sep)\<close> with a string separator: the segments between the
  non-overlapping occurrences of \<open>sep\<close>, found from the left. With the empty
  separator JavaScript returns the single characters.
\<close>

function split_from :: "string \<Rightarrow> string \<Rightarrow> string \<Rightarrow> string list" where
  "split_from sep acc [] = [rev acc]"
| "split_from sep acc (c # cs) =
     (if sep \<noteq> [] \<and> take (length sep) (c # cs) = sep
      then rev acc # split_from sep [] (drop (length sep) (c # cs))
      else split_from sep (c # acc) cs)"
  by pat_completeness auto
termination
  by (relation "measure (\<lambda>(sep, acc, s). length s)") auto

definition split :: "string \<Rightarrow> string \<Rightarrow> string list" where
  "split s sep = (if sep = [] then map (\<lambda>c. [c]) s else split_from sep [] s)"

section \<open>Title formatting\<close>

text \<open>
  The separator of \<open>scripts/ingest-rss.js\<close>, line 30: a space, the em dash U+2014
  (UTF-8 bytes E2 80 94) and a space.
\<close>

definition title_sep :: string where
  "title_sep = [CHR 0x20, CHR 0xE2, CHR 0x80, CHR 0x94, CHR 0x20]"

text \<open>
  The separator of the two scripts in \<open>unnamed/part_000\<close>, lines 30 and 181: a space,
  the three characters U+00E2 U+20AC U+201D (UTF-8 bytes C3 A2, E2 82 AC, E2 80 9D) and
  a space.
\<close>

definition title_sep_part_000 :: string where
  "title_sep_part_000 =
     [CHR 0x20, CHR 0xC3, CHR 0xA2, CHR 0xE2, CHR 0x82, CHR 0xAC, CHR 0xE2, CHR 0x80, CHR 0x9D,
      CHR 0x20]"

text \<open>
  The body shared by every copy of \<open>wrapTitle\<close>; the copies differ in the separator
  only. \<open>parts[0]\<close> of an empty array would print as \<open>undefined\<close>.
\<close>

definition wrapTitle_with :: "string \<Rightarrow> string \<Rightarrow> string \<Rightarrow> string" where
  "wrapTitle_with sep title link =
     (let parts = split title sep;
          html = ''<h1><a href=\"'' @ link @ ''\" target=\"_blank\">''
                 @ (case parts of [] \<Rightarrow> ''undefined'' | p # _ \<Rightarrow> p) @ ''</a></h1>''
      in foldl (\<lambda>html p. html @ ''<h2>'' @ p @ ''</h2>'') html (tl parts))"

definition wrapTitle :: "string \<Rightarrow> string \<Rightarrow> string" where
  "wrapTitle title link = wrapTitle_with title_sep title link"

text \<open>
  \<open>unnamed/part_000\<close> holds two scripts. The first is a filesystem script like
  \<open>scripts/ingest-rss.js\<close>, with the same \<open>main\<close> and a \<open>prettifyItem\<close> that first drops
  a site suffix from the titles of two hosts; of it only \<open>wrapTitle\<close> is modelled. The
  second is the object-storage script, modelled further down.
\<close>

definition wrapTitle_part_000 :: "string \<Rightarrow> string \<Rightarrow> string" where
  "wrapTitle_part_000 title link = wrapTitle_with title_sep_part_000 title link"

section \<open>Content addressing\<close>

text \<open>
  \<open>crypto.createHash('sha256').update(text).digest('hex')\<close> is the SHA-256 digest of
  the UTF-8 bytes of \<open>text\<close>, printed as 64 lowercase hexadecimal digits. SHA-256 is
  written out here as FIPS 180-4 defines it.
\<close>

type_synonym u32 = "32 word"
type_synonym byte = "8 word"
type_synonym sha_state = "u32 \<times> u32 \<times> u32 \<times> u32 \<times> u32 \<times> u32 \<times> u32 \<times> u32"

definition sha256_K :: "u32 list" where
  "sha256_K =
     0x428a2f98 # 0x71374491 # 0xb5c0fbcf # 0xe9b5dba5 #
     0x3956c25b # 0x59f111f1 # 0x923f82a4 # 0xab1c5ed5 #
     0xd807aa98 # 0x12835b01 # 0x243185be # 0x550c7dc3 #
     0x72be5d74 # 0x80deb1fe # 0x9bdc06a7 # 0xc19bf174 #
     0xe49b69c1 # 0xefbe4786 # 0x0fc19dc6 # 0x240ca1cc #
     0x2de92c6f # 0x4a7484aa # 0x5cb0a9dc # 0x76f988da #
     0x983e5152 # 0xa831c66d # 0xb00327c8 # 0xbf597fc7 #
     0xc6e00bf3 # 0xd5a79147 # 0x06ca6351 # 0x14292967 #
     0x27b70a85 # 0x2e1b2138 # 0x4d2c6dfc # 0x53380d13 #
     0x650a7354 # 0x766a0abb # 0x81c2c92e # 0x92722c85 #
     0xa2bfe8a1 # 0xa81a664b # 0xc24b8b70 # 0xc76c51a3 #
     0xd192e819 # 0xd6990624 # 0xf40e3585 # 0x106aa070 #
     0x19a4c116 # 0x1e376c08 # 0x2748774c # 0x34b0bcb5 #
     0x391c0cb3 # 0x4ed8aa4a # 0x5b9cca4f # 0x682e6ff3 #
     0x748f82ee # 0x78a5636f # 0x84c87814 # 0x8cc70208 #
     0x90befffa # 0xa4506ceb # 0xbef9a3f7 # 0xc67178f2 # []"

definition sha256_H0 :: sha_state where
  "sha256_H0 =
    (0x6a09e667, 0xbb67ae85, 0x3c6ef372, 0xa54ff53a,
     0x510e527f, 0x9b05688c, 0x1f83d9ab, 0x5be0cd19)"

definition be64 :: "nat \<Rightarrow> byte list" where
  "be64 n = map (\<lambda>i. ucast (drop_bit (8 * i) (of_nat n :: 64 word))) [7, 6, 5, 4, 3, 2, 1, 0]"

definition sha256_pad :: "byte list \<Rightarrow> byte list" where
  "sha256_pad m =
     m @ [0x80] @ replicate ((119 - length m mod 64) mod 64) 0 @ be64 (8 * length m)"

definition sha256_blocks :: "byte list \<Rightarrow> byte list list" where
  "sha256_blocks bs = map (\<lambda>i. take 64 (drop (64 * i) bs)) [0..<length bs div 64]"

definition be32 :: "byte list \<Rightarrow> u32" where
  "be32 bs = foldl (\<lambda>acc b. push_bit 8 acc OR ucast b) 0 bs"

definition block_words :: "byte list \<Rightarrow> u32 list" where
  "block_words blk = map (\<lambda>i. be32 (take 4 (drop (4 * i) blk))) [0..<16]"

definition ssig0 :: "u32 \<Rightarrow> u32" where
  "ssig0 x = word_rotr 7 x XOR word_rotr 18 x XOR drop_bit 3 x"

definition ssig1 :: "u32 \<Rightarrow> u32" where
  "ssig1 x = word_rotr 17 x XOR word_rotr 19 x XOR drop_bit 10 x"

definition bsig0 :: "u32 \<Rightarrow> u32" where
  "bsig0 x = word_rotr 2 x XOR word_rotr 13 x XOR word_rotr 22 x"

definition bsig1 :: "u32 \<Rightarrow> u32" where
  "bsig1 x = word_rotr 6 x XOR word_rotr 11 x XOR word_rotr 25 x"

definition ch :: "u32 \<Rightarrow> u32 \<Rightarrow> u32 \<Rightarrow> u32" where
  "ch x y z = (x AND y) XOR (NOT x AND z)"

definition maj :: "u32 \<Rightarrow> u32 \<Rightarrow> u32 \<Rightarrow> u32" where
  "maj x y z = (x AND y) XOR (x AND z) XOR (y AND z)"

text \<open>The message schedule: 16 words of the block, extended to 64.\<close>

fun extend_schedule :: "nat \<Rightarrow> u32 list \<Rightarrow> u32 list" where
  "extend_schedule 0 w = w"
| "extend_schedule (Suc n) w =
     (let t = length w
      in extend_schedule n
           (w @ [ssig1 (w ! (t - 2)) + w ! (t - 7) + ssig0 (w ! (t - 15)) + w ! (t - 16)]))"

definition sha256_round :: "sha_state \<Rightarrow> u32 \<times> u32 \<Rightarrow> sha_state" where
  "sha256_round s kw =
     (case s of (a, b, c, d, e, f, g, h) \<Rightarrow>
        (let t1 = h + bsig1 e + ch e f g + fst kw + snd kw;
             t2 = bsig0 a + maj a b c
         in (t1 + t2, a, b, c, d + t1, e, f, g)))"

definition sha256_compress :: "sha_state \<Rightarrow> byte list \<Rightarrow> sha_state" where
  "sha256_compress hs blk =
     (let w = extend_schedule 48 (block_words blk)
      in case (hs, foldl sha256_round hs (zip sha256_K w)) of
           ((h0, h1, h2, h3, h4, h5, h6, h7), (a, b, c, d, e, f, g, h)) \<Rightarrow>
             (h0 + a, h1 + b, h2 + c, h3 + d, h4 + e, h5 + f, h6 + g, h7 + h))"

definition sha256 :: "byte list \<Rightarrow> sha_state" where
  "sha256 m = foldl sha256_compress sha256_H0 (sha256_blocks (sha256_pad m))"

definition hex_digit :: "u32 \<Rightarrow> char" where
  "hex_digit x = ''0123456789abcdef'' ! unat (x AND 15)"

definition hex32 :: "u32 \<Rightarrow> string" where
  "hex32 w = map (\<lambda>i. hex_digit (drop_bit (4 * i) w)) [7, 6, 5, 4, 3, 2, 1, 0]"

definition digest_hex :: "sha_state \<Rightarrow> string" where
  "digest_hex s =
     (case s of (a, b, c, d, e, f, g, h) \<Rightarrow>
        hex32 a @ hex32 b @ hex32 c @ hex32 d @ hex32 e @ hex32 f @ hex32 g @ hex32 h)"

text \<open>\<open>getHash\<close>; \<open>substring(0, 12)\<close> keeps the first 12 characters.\<close>

definition getHash :: "string \<Rightarrow> string" where
  "getHash text = take 12 (digest_hex (sha256 (map of_char text)))"

section \<open>Sanitizing and formatting an item\<close>

text \<open>
  The options object handed to the \<open>sanitize-html\<close> package, with the two constants of
  lines 17 and 18.
\<close>

record sanitize_options =
  allowedTags :: "string list"
  allowedAttributes :: "(string \<times> string list) list"

definition ALLOWED_TAGS :: "string list" where
  "ALLOWED_TAGS =
     [''h1'', ''h2'', ''h3'', ''h4'', ''h5'', ''h6'', ''p'', ''ul'', ''li'', ''strong'', ''em'',
      ''a'', ''br'', ''div'', ''img'', ''span'']"

definition ALLOWED_ATTRIBUTES :: "(string \<times> string list) list" where
  "ALLOWED_ATTRIBUTES =
     [(''a'', [''href'', ''rel'', ''target'']),
      (''img'', [''loading'', ''src'', ''alt'', ''title'']),
      (''span'', [''class'', ''style''])]"

text \<open>
  \<open>cleanHtml\<close>. The function \<open>sanitizeHtml\<close> comes from the package \<open>sanitize-html\<close>
  and is a parameter here.
\<close>

definition cleanHtml :: "(string \<Rightarrow> sanitize_options \<Rightarrow> string) \<Rightarrow> string option \<Rightarrow> string" where
  "cleanHtml sanitizeHtml html =
     (if \<not> truthy html then ''''
      else case html of
             None \<Rightarrow> ''''
           | Some s \<Rightarrow>
               sanitizeHtml s
                 \<lparr>allowedTags = ALLOWED_TAGS, allowedAttributes = ALLOWED_ATTRIBUTES\<rparr>)"

text \<open>
  Numbers returned by \<open>Date.parse\<close>: \<open>NaN\<close> for a string that is no date, otherwise a
  whole number of milliseconds since the epoch. \<open>a || b\<close> takes \<open>b\<close> when \<open>a\<close> is
  \<open>NaN\<close> or \<open>0\<close>.
\<close>

datatype js_number = NaN | Num int

definition js_or_num :: "js_number \<Rightarrow> int \<Rightarrow> int" where
  "js_or_num a b = (case a of NaN \<Rightarrow> b | Num n \<Rightarrow> if n = 0 then b else n)"

text \<open>\<open>Date.parse(x)\<close> converts its argument to a string first.\<close>

definition js_to_string :: "string option \<Rightarrow> string" where
  "js_to_string x = (case x of None \<Rightarrow> ''undefined'' | Some s \<Rightarrow> s)"

text \<open>An item as \<open>rss-parser\<close> delivers it; every field may be missing.\<close>

record rss_item =
  rss_guid :: "string option"
  rss_link :: "string option"
  rss_title :: "string option"
  rss_pubDate :: "string option"
  rss_contentEncoded :: "string option"
  rss_content :: "string option"
  rss_summary :: "string option"
  rss_description :: "string option"

text \<open>
  The object built in \<open>main\<close> and completed by \<open>prettifyItem\<close>. \<open>JSON.stringify\<close>
  leaves out the fields that are \<open>undefined\<close> (\<open>None\<close>).
\<close>

record item =
  guid :: string
  title :: "string option"
  link :: "string option"
  pubDate :: "string option"
  description :: "string option"
  timestamp :: int
  source :: "string option"
  category :: "string option"

section \<open>The conditional fetcher\<close>

record req_headers =
  If_None_Match :: "string option"
  If_Modified_Since :: "string option"

text \<open>
  What \<open>fetch\<close> can do: its promise rejects (network error, bad URL, the 15 s timeout)
  with a message, or resolves to a response. Reading the body with \<open>response.text()\<close>
  can reject as well (\<open>Inl\<close>).
\<close>

record response =
  status :: nat
  header_etag :: "string option"
  header_last_modified :: "string option"
  text_body :: "string + string"

datatype fetch_outcome = Rejects string | Resolves response

definition ok :: "response \<Rightarrow> bool" where
  "ok r = (200 \<le> status r \<and> status r \<le> 299)"

record fetch_result =
  modified :: bool
  xml :: "string option"
  res_etag :: "string option"
  res_lastModified :: "string option"
  error :: "string option"

function show_nat :: "nat \<Rightarrow> string" where
  "show_nat n =
     (if n < 10 then [char_of (48 + n)] else show_nat (n div 10) @ [char_of (48 + n mod 10)])"
  by pat_completeness auto
termination
  by (relation "measure (\<lambda>n. n)") auto

text \<open>The body of the \<open>try\<close> block of \<open>fetchFeed\<close>; \<open>Inl\<close> is a thrown error's message.\<close>

definition fetchFeed_try ::
  "(string \<Rightarrow> req_headers \<Rightarrow> fetch_outcome) \<Rightarrow> string \<Rightarrow> req_headers \<Rightarrow> string + fetch_result"
where
  "fetchFeed_try fetch url headers =
     (case fetch url headers of
        Rejects e \<Rightarrow> Inl e
      | Resolves response \<Rightarrow>
          if status response = 304
          then Inr \<lparr>modified = False, xml = None, res_etag = None, res_lastModified = None,
                     error = None\<rparr>
          else if \<not> ok response then Inl (''HTTP '' @ show_nat (status response))
          else (case text_body response of
                  Inl e \<Rightarrow> Inl e
                | Inr x \<Rightarrow>
                    Inr \<lparr>modified = True, xml = Some x, res_etag = header_etag response,
                         res_lastModified = header_last_modified response, error = None\<rparr>))"

text \<open>The conditional request headers (lines 57 to 59).\<close>

definition request_headers :: "string option \<Rightarrow> string option \<Rightarrow> req_headers" where
  "request_headers etag lastModified =
     \<lparr>If_None_Match = (if truthy etag then etag else None),
      If_Modified_Since = (if truthy lastModified then lastModified else None)\<rparr>"

text \<open>
  \<open>fetchFeed\<close> with its \<open>catch\<close>. The result type keeps a place (\<open>Inl\<close>) for an
  error that leaves the function.
\<close>

definition fetchFeed ::
  "(string \<Rightarrow> req_headers \<Rightarrow> fetch_outcome) \<Rightarrow> string \<Rightarrow> string option \<Rightarrow> string option
     \<Rightarrow> string + fetch_result"
where
  "fetchFeed fetch url etag lastModified =
     (let headers = request_headers etag lastModified
      in case fetchFeed_try fetch url headers of
           Inr result \<Rightarrow> Inr result
         | Inl e \<Rightarrow>
             Inr \<lparr>modified = False, xml = None, res_etag = None, res_lastModified = None,
                  error = Some e\<rparr>)"

section \<open>The environment of a run\<close>

text \<open>
  The scripts reach the outside world through library calls. They are collected here:
  the network, the feed parser (\<open>Inl\<close>: the parse promise rejects), the clock read for
  the item at a given position of the feed, \<open>Date.parse\<close>, the base64 decoding of the
  feed URL, the sanitizer, and for the uploads of the object-storage script, each known by
  its position among the uploads of its cycle: whether it succeeds, and when it settles
  (the uploads of a cycle run side by side, and one with a smaller \<open>settle_order\<close> reaches
  the bucket before one with a larger).
\<close>

record env =
  fetch :: "string \<Rightarrow> req_headers \<Rightarrow> fetch_outcome"
  parseString :: "string option \<Rightarrow> string + rss_item list"
  Date_parse :: "string \<Rightarrow> js_number"
  Date_now :: "nat \<Rightarrow> int"
  base64_decode :: "string \<Rightarrow> string"
  sanitizeHtml :: "string \<Rightarrow> sanitize_options \<Rightarrow> string"
  send_ok :: "nat \<Rightarrow> string \<Rightarrow> bool"
  settle_order :: "nat \<Rightarrow> nat"

text \<open>\<open>prettifyItem\<close> of \<open>scripts/ingest-rss.js\<close> (lines 48 to 54).\<close>

definition prettifyItem :: "env \<Rightarrow> item \<Rightarrow> string \<Rightarrow> item" where
  "prettifyItem e it sourceHash =
     it\<lparr>description := Some (cleanHtml (sanitizeHtml e) (Some (js_or_str (description it) ''''))),
        title := Some (wrapTitle (js_or_str (title it) ''No Title'') (js_or_str (link it) ''#'')),
        source := Some sourceHash,
        category := Some ''''\<rparr>"

text \<open>
  \<open>prettifyItem\<close> of the object-storage script (\<open>unnamed/part_000\<close>, lines 187 to 193):
  the same statements, calling that script's own \<open>wrapTitle\<close>.
\<close>

definition prettifyItem_part_000 :: "env \<Rightarrow> item \<Rightarrow> string \<Rightarrow> item" where
  "prettifyItem_part_000 e it sourceHash =
     it\<lparr>description := Some (cleanHtml (sanitizeHtml e) (Some (js_or_str (description it) ''''))),
        title :=
          Some (wrapTitle_part_000 (js_or_str (title it) ''No Title'') (js_or_str (link it) ''#'')),
        source := Some sourceHash,
        category := Some ''''\<rparr>"

text \<open>\<open>item.guid || item.link\<close>.\<close>

definition item_guid :: "rss_item \<Rightarrow> string option" where
  "item_guid it = js_or (rss_guid it) (rss_link it)"

text \<open>The object literal passed to \<open>prettifyItem\<close>, for the item at position \<open>i\<close>.\<close>

definition new_item :: "env \<Rightarrow> nat \<Rightarrow> rss_item \<Rightarrow> string \<Rightarrow> item" where
  "new_item e i it gd =
     \<lparr>guid = gd,
      title = rss_title it,
      link = rss_link it,
      pubDate = rss_pubDate it,
      description =
        js_or (js_or (js_or (rss_contentEncoded it) (rss_content it)) (rss_summary it))
          (rss_description it),
      timestamp = js_or_num (Date_parse e (js_to_string (rss_pubDate it))) (Date_now e i),
      source = None,
      category = None\<rparr>"

text \<open>
  \<open>String.prototype.replace(pattern, replacement)\<close> with a string pattern: the first
  occurrence only.
\<close>

fun replace_first :: "string \<Rightarrow> string \<Rightarrow> string \<Rightarrow> string" where
  "replace_first pat rep [] = (if pat = [] then rep else [])"
| "replace_first pat rep (c # cs) =
     (if take (length pat) (c # cs) = pat then rep @ drop (length pat) (c # cs)
      else c # replace_first pat rep cs)"

definition endsWith :: "string \<Rightarrow> string \<Rightarrow> bool" where
  "endsWith s suffix = (length suffix \<le> length s \<and> drop (length s - length suffix) s = suffix)"

record source_doc =
  u :: string
  etag :: "string option"
  lastModified :: "string option"

record manifest_entry =
  g :: string
  h :: string

section \<open>The filesystem script: \<open>scripts/ingest-rss.js\<close>\<close>

text \<open>
  The three directories the script works on. \<open>sources_dir\<close> maps a file name of
  \<open>SOURCES_DIR\<close> to the source document stored in it, \<open>feeds_dir\<close> maps a source
  hash \<open>s\<close> to the manifest in \<open>FEEDS_DIR/s.json\<close>, and \<open>items_root\<close> maps
  \<open>(s, k)\<close> to the item document in \<open>ITEMS_ROOT/s/k.json\<close>. The directories are
  created before they are used (lines 72 and 84), and writing a file into them is taken
  to succeed.
\<close>

record fs_state =
  sources_dir :: "string \<rightharpoonup> source_doc"
  feeds_dir :: "string \<rightharpoonup> manifest_entry list"
  items_root :: "string \<times> string \<rightharpoonup> item"

text \<open>
  The loop over \<open>feed.items\<close> (lines 93 to 110), at position \<open>i\<close> of the feed with
  the manifest collected so far. \<open>getHash(undefined)\<close> throws a \<open>TypeError\<close>, which
  leaves the loop (\<open>Inl\<close>); the files written before it stay.
\<close>

fun sync_items ::
  "env \<Rightarrow> string \<Rightarrow> nat \<Rightarrow> rss_item list \<Rightarrow> manifest_entry list \<Rightarrow> fs_state
     \<Rightarrow> (string + manifest_entry list) \<times> fs_state"
where
  "sync_items e sourceHash i [] manifest st = (Inr manifest, st)"
| "sync_items e sourceHash i (it # rest) manifest st =
     (case item_guid it of
        None \<Rightarrow> (Inl ''TypeError'', st)
      | Some gd \<Rightarrow>
          (let itemHash = getHash gd;
               manifest' = manifest @ [\<lparr>g = gd, h = itemHash\<rparr>];
               st' = (if items_root st (sourceHash, itemHash) = None
                      then st\<lparr>items_root := (items_root st)
                              ((sourceHash, itemHash) \<mapsto>
                                 prettifyItem e (new_item e i it gd) sourceHash)\<rparr>
                      else st)
           in sync_items e sourceHash (Suc i) rest manifest' st'))"

text \<open>
  The body of the loop over the source files (lines 78 to 118) for the file \<open>file\<close>
  whose parsed content is \<open>src\<close>. Every error inside the \<open>try\<close> is caught and logged,
  and the script goes on with what has been written so far.
\<close>

definition cycle_fs :: "env \<Rightarrow> string \<Rightarrow> source_doc \<Rightarrow> fs_state \<Rightarrow> fs_state" where
  "cycle_fs e file src st =
     (let sourceHash = replace_first ''.json'' '''' file;
          feedUrl = base64_decode e (u src)
      in case fetchFeed (fetch e) feedUrl (etag src) (lastModified src) of
           Inl err \<Rightarrow> st
         | Inr result \<Rightarrow>
             if modified result then
               (case parseString e (xml result) of
                  Inl err \<Rightarrow> st
                | Inr items \<Rightarrow>
                    (case sync_items e sourceHash 0 items [] st of
                       (Inl err, st') \<Rightarrow> st'
                     | (Inr manifest, st') \<Rightarrow>
                         st'\<lparr>feeds_dir := (feeds_dir st')(sourceHash \<mapsto> manifest),
                             sources_dir := (sources_dir st')
                               (file \<mapsto>
                                  src\<lparr>etag := Some (js_or_str (res_etag result) ''''),
                                      lastModified :=
                                        Some (js_or_str (res_lastModified result) '''')\<rparr>)\<rparr>))
             else st)"

text \<open>
  \<open>main\<close>: one cycle for each listed file whose name ends in \<open>.json\<close>, in the order
  of the listing \<open>files\<close>. Reading a listed file that is not there throws outside the
  \<open>try\<close> and ends the run (\<open>Inl\<close>). The source documents are taken to be
  well formed (each has its field \<open>u\<close>). The log lines and the empty marker file
  \<open>.nojekyll\<close>, written at the end, are left out: they touch none of the three
  directories.
\<close>

fun run_fs :: "env \<Rightarrow> string list \<Rightarrow> fs_state \<Rightarrow> string + fs_state" where
  "run_fs e [] st = Inr st"
| "run_fs e (file # rest) st =
     (case sources_dir st file of
        None \<Rightarrow> Inl ''ENOENT''
      | Some src \<Rightarrow> run_fs e rest (cycle_fs e file src st))"

definition main_fs :: "env \<Rightarrow> string list \<Rightarrow> fs_state \<Rightarrow> string + fs_state" where
  "main_fs e files st = run_fs e (filter (\<lambda>f. endsWith f ''.json'') files) st"

section \<open>The object-storage script: \<open>unnamed/part_000\<close>, second script\<close>

text \<open>
  The bucket maps a key to the body stored under it, an item document or a manifest.
  The source documents stay in the local \<open>SOURCES_DIR\<close>.

  An upload is a call of \<open>uploadToR2\<close> whose \<open>PutObject\<close> has been sent: its position
  among the uploads of its cycle, its key and its body. The script collects the uploads of
  a cycle in \<open>uploadPromises\<close> and waits for them together. \<open>bucket\<close> holds what the
  uploads that have settled have stored; \<open>in_flight\<close> holds the uploads that were sent
  and that nothing waits for: they settle at some later time that the script does not
  know.
\<close>

datatype r2_body = ItemBody item | ManifestBody "manifest_entry list"

type_synonym upload = "nat \<times> string \<times> r2_body"

record r2_state =
  r2_sources :: "string \<rightharpoonup> source_doc"
  bucket :: "string \<rightharpoonup> r2_body"
  in_flight :: "upload list"

text \<open>
  \<open>uploadToR2\<close>, when its \<open>PutObject\<close> settles: the body is stored under the key when
  the request succeeds; a failure is caught and logged. \<open>n\<close> is the position of the
  upload in its cycle.
\<close>

definition uploadToR2 :: "env \<Rightarrow> nat \<Rightarrow> string \<Rightarrow> r2_body \<Rightarrow> r2_state \<Rightarrow> r2_state" where
  "uploadToR2 e n key body st =
     (if send_ok e n key then st\<lparr>bucket := (bucket st)(key \<mapsto> body)\<rparr> else st)"

text \<open>
  \<open>await Promise.all(uploadPromises)\<close> (line 271 of the file): every upload of the list
  settles, in the order that the environment gives them; none of them rejects.
\<close>

definition Promise_all :: "env \<Rightarrow> upload list \<Rightarrow> r2_state \<Rightarrow> r2_state" where
  "Promise_all e uploadPromises st =
     foldl (\<lambda>st p. uploadToR2 e (fst p) (fst (snd p)) (snd (snd p)) st) st
       (sort_key (\<lambda>p. settle_order e (fst p)) uploadPromises)"

text \<open>
  The loop over \<open>feed.items\<close> (lines 250 to 266 of the file), at position \<open>i\<close> of the
  feed with the manifest and the uploads collected so far. Every item is processed and
  its upload sent; there is no test for a stored document. \<open>getHash(undefined)\<close> throws
  a \<open>TypeError\<close>, which leaves the loop (\<open>Inl\<close>).
\<close>

fun upload_items ::
  "env \<Rightarrow> string \<Rightarrow> nat \<Rightarrow> rss_item list \<Rightarrow> manifest_entry list \<Rightarrow> upload list
     \<Rightarrow> (string + manifest_entry list) \<times> upload list"
where
  "upload_items e sourceHash i [] manifest uploadPromises = (Inr manifest, uploadPromises)"
| "upload_items e sourceHash i (it # rest) manifest uploadPromises =
     (case item_guid it of
        None \<Rightarrow> (Inl ''TypeError'', uploadPromises)
      | Some gd \<Rightarrow>
          (let itemHash = getHash gd;
               manifest' = manifest @ [\<lparr>g = gd, h = itemHash\<rparr>];
               processed = prettifyItem_part_000 e (new_item e i it gd) sourceHash;
               uploadPromises' =
                 uploadPromises
                 @ [(i, ''items/'' @ sourceHash @ ''/'' @ itemHash @ ''.json'', ItemBody processed)]
           in upload_items e sourceHash (Suc i) rest manifest' uploadPromises'))"

text \<open>
  The body of the loop over the source files (lines 235 to 280 of the file). When the
  loop over the items throws, the error is caught and logged: the uploads sent so far are
  never waited for and stay in flight, and neither the manifest nor the source document
  is written. Otherwise the manifest's upload is sent after those of the items, all of
  them are waited for, and the source document is written.
\<close>

definition cycle_r2 :: "env \<Rightarrow> string \<Rightarrow> source_doc \<Rightarrow> r2_state \<Rightarrow> r2_state" where
  "cycle_r2 e file src st =
     (let sourceHash = replace_first ''.json'' '''' file;
          feedUrl = base64_decode e (u src)
      in case fetchFeed (fetch e) feedUrl (etag src) (lastModified src) of
           Inl err \<Rightarrow> st
         | Inr result \<Rightarrow>
             if modified result then
               (case parseString e (xml result) of
                  Inl err \<Rightarrow> st
                | Inr items \<Rightarrow>
                    (case upload_items e sourceHash 0 items [] [] of
                       (Inl err, uploadPromises) \<Rightarrow>
                         st\<lparr>in_flight := in_flight st @ uploadPromises\<rparr>
                     | (Inr manifest, uploadPromises) \<Rightarrow>
                         (let uploadPromises' =
                                uploadPromises
                                @ [(length items, ''feeds/'' @ sourceHash @ ''.json'',
                                    ManifestBody manifest)];
                              st' = Promise_all e uploadPromises' st
                          in st'\<lparr>r2_sources := (r2_sources st')
                               (file \<mapsto>
                                  src\<lparr>etag := Some (js_or_str (res_etag result) ''''),
                                      lastModified :=
                                        Some (js_or_str (res_lastModified result) '''')\<rparr>)\<rparr>)))
             else st)"

text \<open>
  \<open>main\<close> of the object-storage script, as above. The script ends at once when the
  credentials or the sources directory are missing; a run is modelled from the listing on,
  up to the return of \<open>main\<close>.
\<close>

fun run_r2 :: "env \<Rightarrow> string list \<Rightarrow> r2_state \<Rightarrow> string + r2_state" where
  "run_r2 e [] st = Inr st"
| "run_r2 e (file # rest) st =
     (case r2_sources st file of
        None \<Rightarrow> Inl ''ENOENT''
      | Some src \<Rightarrow> run_r2 e rest (cycle_r2 e file src st))"

definition main_r2 :: "env \<Rightarrow> string list \<Rightarrow> r2_state \<Rightarrow> string + r2_state" where
  "main_r2 e files st = run_r2 e (filter (\<lambda>f. endsWith f ''.json'') files) st"

text \<open>The \<open>result\<close> of line 87 for a source document.\<close>

abbreviation result_of :: "env \<Rightarrow> source_doc \<Rightarrow> string + fetch_result" where
  "result_of e src \<equiv> fetchFeed (fetch e) (base64_decode e (u src)) (etag src) (lastModified src)"

text \<open>The key of an item document in the bucket (line 265 of the file).\<close>

abbreviation item_key :: "string \<Rightarrow> string \<Rightarrow> string" where
  "item_key sourceHash gd \<equiv> ''items/'' @ sourceHash @ ''/'' @ getHash gd @ ''.json''"

section \<open>Example feeds\<close>

text \<open>
  An environment in which every request gets the given outcome and the parser delivers
  the given items; \<open>Date.parse\<close> knows one date, the epoch itself; every upload succeeds
  and the uploads of a cycle settle in the order in which they were sent.
\<close>

definition example_env :: "fetch_outcome \<Rightarrow> rss_item list \<Rightarrow> env" where
  "example_env outcome items =
     \<lparr>fetch = (\<lambda>url headers. outcome),
      parseString = (\<lambda>x. Inr items),
      Date_parse = (\<lambda>s. if s = ''Thu, 01 Jan 1970 00:00:00 GMT'' then Num 0 else NaN),
      Date_now = (\<lambda>i. 1700000000000 + int i),
      base64_decode = (\<lambda>s. s),
      sanitizeHtml = (\<lambda>s opts. s),
      send_ok = (\<lambda>n key. True),
      settle_order = (\<lambda>n. n)\<rparr>"

definition example_response :: "string option \<Rightarrow> response" where
  "example_response tag =
     \<lparr>status = 200, header_etag = tag, header_last_modified = None,
      text_body = Inr ''<rss></rss>''\<rparr>"

definition example_item :: "string \<Rightarrow> string \<Rightarrow> string option \<Rightarrow> rss_item" where
  "example_item gd t d =
     \<lparr>rss_guid = Some gd, rss_link = None, rss_title = Some t, rss_pubDate = d,
      rss_contentEncoded = None, rss_content = None, rss_summary = None,
      rss_description = None\<rparr>"

text \<open>An item with a title and neither \<open>guid\<close> nor \<open>link\<close>, as RSS allows.\<close>

definition example_item_without_id :: rss_item where
  "example_item_without_id =
     \<lparr>rss_guid = None, rss_link = None, rss_title = Some ''T'', rss_pubDate = None,
      rss_contentEncoded = None, rss_content = None, rss_summary = None,
      rss_description = None\<rparr>"

definition example_source :: source_doc where
  "example_source = \<lparr>u = ''aHR0cDovL3g='', etag = Some ''v1'', lastModified = Some ''Mon''\<rparr>"

definition empty_fs :: fs_state where
  "empty_fs = \<lparr>sources_dir = Map.empty, feeds_dir = Map.empty, items_root = Map.empty\<rparr>"

definition empty_r2 :: r2_state where
  "empty_r2 = \<lparr>r2_sources = Map.empty, bucket = Map.empty, in_flight = []\<rparr>"





text \<open>
  A cycle of the filesystem script for a source that has a manifest with the one entry
  \<open>g0\<close>: the feed is fetched as modified and parsed, and the second of its three items
  has no identifier.
\<close>

definition one_entry_fs :: fs_state where
  "one_entry_fs = empty_fs\<lparr>feeds_dir := [''s'' \<mapsto> [\<lparr>g = ''g0'', h = getHash ''g0''\<rparr>]]\<rparr>"

definition nameless_sync :: fs_state where
  "nameless_sync =
     cycle_fs
       (example_env (Resolves (example_response None))
          [example_item ''g1'' ''T'' None, example_item_without_id, example_item ''g3'' ''T'' None])
       ''s.json'' example_source one_entry_fs"

section \<open>Properties of the title formatter\<close>

text \<open>The shape of the result of \<open>wrapTitle\<close>, whatever the separator.\<close>

lemma foldl_h2:
  "foldl (\<lambda>html p. html @ f p) acc ps = acc @ concat (map f ps)"
  by (induction ps arbitrary: acc) simp_all

lemma split_from_nonempty: "split_from sep acc s \<noteq> []"
  by (induction sep acc s rule: split_from.induct) auto

lemma wrapTitle_with_parts:
  "sep \<noteq> [] \<Longrightarrow> split t sep = p # ps \<Longrightarrow>
   wrapTitle_with sep t l =
     ''<h1><a href=\"'' @ l @ ''\" target=\"_blank\">'' @ p @ ''</a></h1>''
     @ concat (map (\<lambda>p. ''<h2>'' @ p @ ''</h2>'') ps)"
  by (simp add: wrapTitle_with_def Let_def foldl_h2)

text \<open>A text in which the separator's first character does not occur is one segment.\<close>

lemma split_from_no_sep:
  "sep \<noteq> [] \<Longrightarrow> hd sep \<notin> set s \<Longrightarrow> split_from sep acc s = [rev acc @ s]"
proof (induction s arbitrary: acc)
  case Nil
  then show ?case by simp
next
  case (Cons c cs)
  from Cons.prems have "take (length sep) (c # cs) \<noteq> sep"
    by (cases sep) auto
  with Cons show ?case by simp
qed

lemma split_no_sep: "sep \<noteq> [] \<Longrightarrow> hd sep \<notin> set s \<Longrightarrow> split s sep = [s]"
  by (simp add: split_def split_from_no_sep)

lemma wrapTitle_no_space:
  "CHR '' '' \<notin> set t \<Longrightarrow>
   wrapTitle t l = ''<h1><a href=\"'' @ l @ ''\" target=\"_blank\">'' @ t @ ''</a></h1>''"
proof -
  assume "CHR '' '' \<notin> set t"
  then have "split t title_sep = [t]"
    by (intro split_no_sep) (simp_all add: title_sep_def)
  then show ?thesis
    by (simp add: wrapTitle_def wrapTitle_with_parts title_sep_def)
qed

section \<open>Properties of the content addressor\<close>







text \<open>
  The second test vector of the standard, a message of 56 bytes that is padded to two
  blocks; its digest starts with \<open>248d6a61 d20638b8\<close>.
\<close>

lemma getHash_two_blocks:
  "getHash ''abcdbcdecdefdefgefghfghighijhijkijkljklmklmnlmnomnopnopq'' = ''248d6a61d206''"
  by code_simp



section \<open>Properties of the conditional fetcher\<close>

lemma js_or_str_empty: "js_or_str x '''' = (case x of None \<Rightarrow> '''' | Some s \<Rightarrow> s)"
  by (simp add: js_or_str_def split: option.splits)

lemma fetchFeed_cases:
  "fetchFeed f url et lm =
     (case f url (request_headers et lm) of
        Rejects msg \<Rightarrow>
          Inr \<lparr>modified = False, xml = None, res_etag = None, res_lastModified = None,
               error = Some msg\<rparr>
      | Resolves resp \<Rightarrow>
          if status resp = 304
          then Inr \<lparr>modified = False, xml = None, res_etag = None, res_lastModified = None,
                    error = None\<rparr>
          else if \<not> ok resp
          then Inr \<lparr>modified = False, xml = None, res_etag = None, res_lastModified = None,
                    error = Some (''HTTP '' @ show_nat (status resp))\<rparr>
          else (case text_body resp of
                  Inl msg \<Rightarrow>
                    Inr \<lparr>modified = False, xml = None, res_etag = None,
                         res_lastModified = None, error = Some msg\<rparr>
                | Inr x \<Rightarrow>
                    Inr \<lparr>modified = True, xml = Some x, res_etag = header_etag resp,
                         res_lastModified = header_last_modified resp, error = None\<rparr>))"
  by (simp add: fetchFeed_def fetchFeed_try_def Let_def
      split: fetch_outcome.splits sum.splits)

text \<open>
  Claim C6. \<open>fetchFeed\<close> always returns a result and never lets an error out. A 304
  response gives the result \<open>{modified: false}\<close>, without a body. A rejected request
  (network error, timeout), a status that is neither 304 nor a success, and a body that
  cannot be read each give \<open>modified: false\<close> with the error's message, and no body.
\<close>

theorem fetchFeed_never_raises:
  "(\<exists>r. fetchFeed f url et lm = Inr r)
   \<and> (\<forall>resp. f url (request_headers et lm) = Resolves resp \<and> status resp = 304 \<longrightarrow>
          fetchFeed f url et lm =
            Inr \<lparr>modified = False, xml = None, res_etag = None, res_lastModified = None,
                 error = None\<rparr>)
   \<and> (\<forall>msg. f url (request_headers et lm) = Rejects msg \<longrightarrow>
          fetchFeed f url et lm =
            Inr \<lparr>modified = False, xml = None, res_etag = None, res_lastModified = None,
                 error = Some msg\<rparr>)
   \<and> (\<forall>resp. f url (request_headers et lm) = Resolves resp \<and> status resp \<noteq> 304 \<and> \<not> ok resp \<longrightarrow>
          fetchFeed f url et lm =
            Inr \<lparr>modified = False, xml = None, res_etag = None, res_lastModified = None,
                 error = Some (''HTTP '' @ show_nat (status resp))\<rparr>)
   \<and> (\<forall>resp msg. f url (request_headers et lm) = Resolves resp \<and> status resp \<noteq> 304 \<and> ok resp
          \<and> text_body resp = Inl msg \<longrightarrow>
          fetchFeed f url et lm =
            Inr \<lparr>modified = False, xml = None, res_etag = None, res_lastModified = None,
                 error = Some msg\<rparr>)"
  by (simp add: fetchFeed_cases split: fetch_outcome.splits sum.splits)

lemma show_nat_503: "show_nat 503 = ''503''"
  by code_simp

theorem fetchFeed_never_raises_witness:
  "fetchFeed (\<lambda>url headers. Resolves (example_response None\<lparr>status := 304\<rparr>)) ''http://x''
     None None =
     Inr \<lparr>modified = False, xml = None, res_etag = None, res_lastModified = None, error = None\<rparr>
   \<and> fetchFeed (\<lambda>url headers. Rejects ''timeout'') ''http://x'' None None =
     Inr \<lparr>modified = False, xml = None, res_etag = None, res_lastModified = None,
          error = Some ''timeout''\<rparr>
   \<and> fetchFeed (\<lambda>url headers. Resolves (example_response None\<lparr>status := 503\<rparr>)) ''http://x''
       None None =
     Inr \<lparr>modified = False, xml = None, res_etag = None, res_lastModified = None,
          error = Some ''HTTP 503''\<rparr>
   \<and> fetchFeed (\<lambda>url headers. Resolves (example_response None\<lparr>text_body := Inl ''aborted''\<rparr>))
       ''http://x'' None None =
     Inr \<lparr>modified = False, xml = None, res_etag = None, res_lastModified = None,
          error = Some ''aborted''\<rparr>"
  using
    fetchFeed_never_raises
      [of "\<lambda>url headers. Resolves (example_response None\<lparr>status := 304\<rparr>)" "''http://x''"
        None None]
    fetchFeed_never_raises [of "\<lambda>url headers. Rejects ''timeout''" "''http://x''" None None]
    fetchFeed_never_raises
      [of "\<lambda>url headers. Resolves (example_response None\<lparr>status := 503\<rparr>)" "''http://x''"
        None None]
    fetchFeed_never_raises
      [of "\<lambda>url headers. Resolves (example_response None\<lparr>text_body := Inl ''aborted''\<rparr>)"
        "''http://x''" None None]
    show_nat_503
  by (simp add: example_response_def ok_def)

section \<open>The loop and the cycle of the filesystem script\<close>

lemma sync_items_sources:
  "sources_dir (snd (sync_items e sh i items m st)) = sources_dir st"
  by (induction items arbitrary: i m st) (auto simp: Let_def split: option.splits)

lemma sync_items_feeds:
  "feeds_dir (snd (sync_items e sh i items m st)) = feeds_dir st"
  by (induction items arbitrary: i m st) (auto simp: Let_def split: option.splits)

text \<open>The loop never touches a document that is already there.\<close>

lemma sync_items_keeps:
  "items_root st k = Some d \<Longrightarrow> items_root (snd (sync_items e sh i items m st)) k = Some d"
proof (induction items arbitrary: i m st)
  case Nil
  then show ?case by simp
next
  case (Cons it rest)
  show ?case
  proof (cases "item_guid it")
    case None
    with Cons.prems show ?thesis by simp
  next
    case (Some gd)
    let ?st' = "if items_root st (sh, getHash gd) = None
                then st\<lparr>items_root := (items_root st)
                        ((sh, getHash gd) \<mapsto> prettifyItem e (new_item e i it gd) sh)\<rparr>
                else st"
    have "items_root ?st' k = Some d"
      using Cons.prems by auto
    then have "items_root (snd (sync_items e sh (Suc i) rest (m @ [\<lparr>g = gd, h = getHash gd\<rparr>]) ?st')) k
                 = Some d"
      by (rule Cons.IH)
    with Some show ?thesis by (simp add: Let_def)
  qed
qed

text \<open>The loop writes under the directory of its own source only.\<close>

lemma sync_items_other_source:
  "fst k \<noteq> sh \<Longrightarrow> items_root (snd (sync_items e sh i items m st)) k = items_root st k"
  by (induction items arbitrary: i m st) (auto simp: Let_def split: option.splits)

text \<open>
  When every item has an identifier the loop ends normally, and it has added one entry
  for each item to the manifest, in the order of the feed.
\<close>

lemma sync_items_manifest:
  "\<forall>it \<in> set items. item_guid it \<noteq> None \<Longrightarrow>
   \<exists>m'. fst (sync_items e sh i items m st) = Inr (m @ m')
        \<and> map (\<lambda>en. Some (g en)) m' = map item_guid items
        \<and> (\<forall>en \<in> set m'. h en = getHash (g en))"
proof (induction items arbitrary: i m st)
  case Nil
  then show ?case by simp
next
  case (Cons it rest)
  then obtain gd where gd: "item_guid it = Some gd" by auto
  let ?en = "\<lparr>g = gd, h = getHash gd\<rparr>"
  let ?st' = "if items_root st (sh, getHash gd) = None
              then st\<lparr>items_root := (items_root st)
                      ((sh, getHash gd) \<mapsto> prettifyItem e (new_item e i it gd) sh)\<rparr>
              else st"
  from Cons.prems have "\<forall>it \<in> set rest. item_guid it \<noteq> None" by simp
  from Cons.IH [OF this, of "Suc i" "m @ [?en]" ?st']
  obtain m' where m': "fst (sync_items e sh (Suc i) rest (m @ [?en]) ?st') = Inr ((m @ [?en]) @ m')"
    "map (\<lambda>en. Some (g en)) m' = map item_guid rest" "\<forall>en \<in> set m'. h en = getHash (g en)"
    by blast
  have "fst (sync_items e sh i (it # rest) m st) = Inr (m @ (?en # m'))"
    using gd m'(1) by (simp add: Let_def)
  moreover have "map (\<lambda>en. Some (g en)) (?en # m') = map item_guid (it # rest)"
    using gd m'(2) by simp
  moreover have "\<forall>en \<in> set (?en # m'). h en = getHash (g en)"
    using m'(3) by simp
  ultimately show ?case by blast
qed

lemma sync_items_error:
  "fst (sync_items e sh i items m st) = Inr m' \<Longrightarrow> \<forall>it \<in> set items. item_guid it \<noteq> None"
  by (induction items arbitrary: i m st) (auto simp: Let_def split: option.splits)

lemma cycle_fs_unmodified:
  "result_of e src = Inr r \<Longrightarrow> \<not> modified r \<Longrightarrow> cycle_fs e file src st = st"
  by (simp add: cycle_fs_def)

lemma cycle_fs_parse_error:
  "result_of e src = Inr r \<Longrightarrow> parseString e (xml r) = Inl msg \<Longrightarrow> cycle_fs e file src st = st"
  by (simp add: cycle_fs_def Let_def)

text \<open>A cycle that was fetched as modified, parsed, and whose items all have an identifier.\<close>

lemma cycle_fs_modified:
  assumes "result_of e src = Inr r" and "modified r"
    and "parseString e (xml r) = Inr items"
    and "\<forall>it \<in> set items. item_guid it \<noteq> None"
  shows "\<exists>m st'. sync_items e (replace_first ''.json'' '''' file) 0 items [] st = (Inr m, st')
           \<and> map (\<lambda>en. Some (g en)) m = map item_guid items
           \<and> (\<forall>en \<in> set m. h en = getHash (g en))
           \<and> cycle_fs e file src st =
               st'\<lparr>feeds_dir := (feeds_dir st')(replace_first ''.json'' '''' file \<mapsto> m),
                   sources_dir := (sources_dir st')
                     (file \<mapsto> src\<lparr>etag := Some (js_or_str (res_etag r) ''''),
                                  lastModified := Some (js_or_str (res_lastModified r) '''')\<rparr>)\<rparr>"
proof -
  let ?sh = "replace_first ''.json'' '''' file"
  obtain res st' where run: "sync_items e ?sh 0 items [] st = (res, st')"
    by (cases "sync_items e ?sh 0 items [] st")
  from sync_items_manifest [OF assms(4), of e ?sh 0 "[]" st] run
  obtain m where m: "res = Inr m" "map (\<lambda>en. Some (g en)) m = map item_guid items"
    "\<forall>en \<in> set m. h en = getHash (g en)"
    by auto
  have "cycle_fs e file src st =
          st'\<lparr>feeds_dir := (feeds_dir st')(?sh \<mapsto> m),
              sources_dir := (sources_dir st')
                (file \<mapsto> src\<lparr>etag := Some (js_or_str (res_etag r) ''''),
                             lastModified := Some (js_or_str (res_lastModified r) '''')\<rparr>)\<rparr>"
    using assms(1-3) run m(1) by (simp add: cycle_fs_def)
  with run m show ?thesis by blast
qed

text \<open>A cycle that ends without the final writes leaves manifests and sources alone.\<close>

lemma cycle_fs_cases:
  "(\<exists>r items m st'. result_of e src = Inr r \<and> modified r \<and> parseString e (xml r) = Inr items
       \<and> (\<forall>it \<in> set items. item_guid it \<noteq> None)
       \<and> sync_items e (replace_first ''.json'' '''' file) 0 items [] st = (Inr m, st'))
   \<or> (sources_dir (cycle_fs e file src st) = sources_dir st
       \<and> feeds_dir (cycle_fs e file src st) = feeds_dir st)"
proof (cases "result_of e src")
  case (Inl msg)
  then show ?thesis by (simp add: cycle_fs_def)
next
  case (Inr r)
  show ?thesis
  proof (cases "modified r")
    case False
    with Inr show ?thesis by (simp add: cycle_fs_unmodified)
  next
    case True
    show ?thesis
    proof (cases "parseString e (xml r)")
      case (Inl msg)
      with Inr show ?thesis by (simp add: cycle_fs_parse_error)
    next
      case items: (Inr items)
      let ?sh = "replace_first ''.json'' '''' file"
      obtain res st' where run: "sync_items e ?sh 0 items [] st = (res, st')"
        by (cases "sync_items e ?sh 0 items [] st")
      have st': "sources_dir st' = sources_dir st" "feeds_dir st' = feeds_dir st"
        using sync_items_sources [of e ?sh 0 items "[]" st]
          sync_items_feeds [of e ?sh 0 items "[]" st] run by simp_all
      show ?thesis
      proof (cases res)
        case (Inl msg)
        with Inr True items run st' show ?thesis by (simp add: cycle_fs_def)
      next
        case m: (Inr m)
        then have "\<forall>it \<in> set items. item_guid it \<noteq> None"
          using sync_items_error [of e ?sh 0 items "[]" st] run by auto
        with Inr True items run m show ?thesis by blast
      qed
    qed
  qed
qed


lemma cycle_fs_other_sources:
  "f \<noteq> file \<Longrightarrow> sources_dir (cycle_fs e file src st) f = sources_dir st f"
proof -
  assume f: "f \<noteq> file"
  have loop: "\<And>items res st'. sync_items e (replace_first ''.json'' '''' file) 0 items [] st = (res, st')
                \<Longrightarrow> sources_dir st' = sources_dir st"
    using sync_items_sources by (metis snd_conv)
  show ?thesis
    using f loop
    by (auto simp: cycle_fs_def Let_def split: sum.splits prod.splits)
qed

lemma cycle_fs_other_feeds:
  "s \<noteq> replace_first ''.json'' '''' file \<Longrightarrow> feeds_dir (cycle_fs e file src st) s = feeds_dir st s"
proof -
  assume s: "s \<noteq> replace_first ''.json'' '''' file"
  have loop: "\<And>items res st'. sync_items e (replace_first ''.json'' '''' file) 0 items [] st = (res, st')
                \<Longrightarrow> feeds_dir st' = feeds_dir st"
    using sync_items_feeds by (metis snd_conv)
  show ?thesis
    using s loop
    by (auto simp: cycle_fs_def Let_def split: sum.splits prod.splits)
qed

section \<open>The loop and the cycle of the object-storage script\<close>

lemma upload_items_error:
  "fst (upload_items e sh i items m ps) = Inr m' \<Longrightarrow> \<forall>it \<in> set items. item_guid it \<noteq> None"
  by (induction items arbitrary: i m ps) (auto simp: Let_def split: option.splits)

text \<open>
  When every item has an identifier the loop ends normally; it has added one entry for
  each item to the manifest and one upload for each item to the uploads, in the order of
  the feed.
\<close>

lemma upload_items_all:
  "\<forall>it \<in> set items. item_guid it \<noteq> None \<Longrightarrow>
   \<exists>m' ps'. upload_items e sh i items m ps = (Inr (m @ m'), ps @ ps')
        \<and> map (\<lambda>en. Some (g en)) m' = map item_guid items
        \<and> (\<forall>en \<in> set m'. h en = getHash (g en))
        \<and> length ps' = length items
        \<and> (\<forall>n < length items. \<exists>gd. item_guid (items ! n) = Some gd
              \<and> ps' ! n = (i + n, item_key sh gd,
                    ItemBody (prettifyItem_part_000 e (new_item e (i + n) (items ! n) gd) sh)))"
proof (induction items arbitrary: i m ps)
  case Nil
  then show ?case by simp
next
  case (Cons it rest)
  then obtain gd where gd: "item_guid it = Some gd" by auto
  let ?en = "\<lparr>g = gd, h = getHash gd\<rparr>"
  let ?p = "(i, item_key sh gd, ItemBody (prettifyItem_part_000 e (new_item e i it gd) sh))"
  from Cons.prems have "\<forall>it \<in> set rest. item_guid it \<noteq> None" by simp
  from Cons.IH [OF this, of "Suc i" "m @ [?en]" "ps @ [?p]"]
  obtain m' ps' where
    run: "upload_items e sh (Suc i) rest (m @ [?en]) (ps @ [?p]) = (Inr ((m @ [?en]) @ m'), (ps @ [?p]) @ ps')"
    and m': "map (\<lambda>en. Some (g en)) m' = map item_guid rest" "\<forall>en \<in> set m'. h en = getHash (g en)"
    and len: "length ps' = length rest"
    and nth: "\<forall>n < length rest. \<exists>gd. item_guid (rest ! n) = Some gd
              \<and> ps' ! n = (Suc i + n, item_key sh gd,
                    ItemBody (prettifyItem_part_000 e (new_item e (Suc i + n) (rest ! n) gd) sh))"
    by blast
  have 1: "upload_items e sh i (it # rest) m ps = (Inr (m @ (?en # m')), ps @ (?p # ps'))"
    using gd run by (simp add: Let_def)
  have 2: "map (\<lambda>en. Some (g en)) (?en # m') = map item_guid (it # rest)"
    using gd m'(1) by simp
  have 3: "\<forall>en \<in> set (?en # m'). h en = getHash (g en)"
    using m'(2) by simp
  have 4: "length (?p # ps') = length (it # rest)"
    using len by simp
  have 5: "\<forall>n < length (it # rest). \<exists>gd. item_guid ((it # rest) ! n) = Some gd
              \<and> (?p # ps') ! n = (i + n, item_key sh gd,
                    ItemBody (prettifyItem_part_000 e (new_item e (i + n) ((it # rest) ! n) gd) sh))"
  proof (intro allI impI)
    fix n assume n: "n < length (it # rest)"
    show "\<exists>gd. item_guid ((it # rest) ! n) = Some gd
              \<and> (?p # ps') ! n = (i + n, item_key sh gd,
                    ItemBody (prettifyItem_part_000 e (new_item e (i + n) ((it # rest) ! n) gd) sh))"
    proof (cases n)
      case 0
      with gd show ?thesis by simp
    next
      case (Suc n')
      with n have "n' < length rest" by simp
      with nth Suc show ?thesis by simp
    qed
  qed
  from 1 2 3 4 5 show ?case by blast
qed

text \<open>Uploads that settle change the bucket only.\<close>

lemma settle_sources:
  "r2_sources (foldl (\<lambda>st p. uploadToR2 e (fst p) (fst (snd p)) (snd (snd p)) st) st ps)
     = r2_sources st"
  by (induction ps arbitrary: st) (simp_all add: uploadToR2_def)

lemma Promise_all_sources: "r2_sources (Promise_all e ps st) = r2_sources st"
  by (simp add: Promise_all_def settle_sources)

text \<open>
  A key that exactly one of the uploads has, an upload that succeeds: when all have
  settled, in whatever order, the bucket holds that upload's body under the key.
\<close>

lemma settle_one:
  "\<forall>q \<in> set ps. fst (snd q) = k \<longrightarrow> q = (n, k, b) \<Longrightarrow> send_ok e n k \<Longrightarrow>
   (n, k, b) \<in> set ps \<or> bucket st k = Some b \<Longrightarrow>
   bucket (foldl (\<lambda>st p. uploadToR2 e (fst p) (fst (snd p)) (snd (snd p)) st) st ps) k = Some b"
proof (induction ps arbitrary: st)
  case Nil
  then show ?case by simp
next
  case (Cons q qs)
  let ?st' = "uploadToR2 e (fst q) (fst (snd q)) (snd (snd q)) st"
  have rest: "\<forall>q \<in> set qs. fst (snd q) = k \<longrightarrow> q = (n, k, b)"
    using Cons.prems(1) by simp
  have "(n, k, b) \<in> set qs \<or> bucket ?st' k = Some b"
  proof (cases "fst (snd q) = k")
    case True
    with Cons.prems(1) have "q = (n, k, b)" by simp
    with Cons.prems(2) show ?thesis by (simp add: uploadToR2_def)
  next
    case False
    then have same: "bucket ?st' k = bucket st k"
      by (simp add: uploadToR2_def)
    from False have "q \<noteq> (n, k, b)" by auto
    with Cons.prems(3) same show ?thesis by auto
  qed
  from Cons.IH [OF rest Cons.prems(2) this] show ?case by simp
qed

lemma Promise_all_one:
  "(n, k, b) \<in> set ps \<Longrightarrow> \<forall>q \<in> set ps. fst (snd q) = k \<longrightarrow> q = (n, k, b) \<Longrightarrow> send_ok e n k \<Longrightarrow>
   bucket (Promise_all e ps st) k = Some b"
  unfolding Promise_all_def by (rule settle_one) auto

lemma cycle_r2_unmodified:
  "result_of e src = Inr r \<Longrightarrow> \<not> modified r \<Longrightarrow> cycle_r2 e file src st = st"
  by (simp add: cycle_r2_def)

lemma cycle_r2_parse_error:
  "result_of e src = Inr r \<Longrightarrow> parseString e (xml r) = Inl msg \<Longrightarrow> cycle_r2 e file src st = st"
  by (simp add: cycle_r2_def Let_def)

text \<open>A cycle that was fetched as modified, parsed, and whose items all have an identifier.\<close>

lemma cycle_r2_modified:
  assumes "result_of e src = Inr r" and "modified r"
    and "parseString e (xml r) = Inr items"
    and "\<forall>it \<in> set items. item_guid it \<noteq> None"
  shows "\<exists>m ps. upload_items e (replace_first ''.json'' '''' file) 0 items [] [] = (Inr m, ps)
           \<and> map (\<lambda>en. Some (g en)) m = map item_guid items
           \<and> (\<forall>en \<in> set m. h en = getHash (g en))
           \<and> length ps = length items
           \<and> (\<forall>n < length items. \<exists>gd. item_guid (items ! n) = Some gd
                 \<and> ps ! n = (n, item_key (replace_first ''.json'' '''' file) gd,
                       ItemBody (prettifyItem_part_000 e (new_item e n (items ! n) gd)
                                   (replace_first ''.json'' '''' file))))
           \<and> cycle_r2 e file src st =
               (Promise_all e
                  (ps @ [(length items, ''feeds/'' @ replace_first ''.json'' '''' file @ ''.json'',
                          ManifestBody m)]) st)
               \<lparr>r2_sources := (r2_sources st)
                     (file \<mapsto> src\<lparr>etag := Some (js_or_str (res_etag r) ''''),
                                  lastModified := Some (js_or_str (res_lastModified r) '''')\<rparr>)\<rparr>"
proof -
  let ?sh = "replace_first ''.json'' '''' file"
  from upload_items_all [OF assms(4), of e ?sh 0 "[]" "[]"]
  obtain m ps where run: "upload_items e ?sh 0 items [] [] = (Inr m, ps)"
    and m: "map (\<lambda>en. Some (g en)) m = map item_guid items" "\<forall>en \<in> set m. h en = getHash (g en)"
    and ps: "length ps = length items"
      "\<forall>n < length items. \<exists>gd. item_guid (items ! n) = Some gd
          \<and> ps ! n = (n, item_key ?sh gd,
                ItemBody (prettifyItem_part_000 e (new_item e n (items ! n) gd) ?sh))"
    by auto
  have "cycle_r2 e file src st =
          (Promise_all e (ps @ [(length items, ''feeds/'' @ ?sh @ ''.json'', ManifestBody m)]) st)
          \<lparr>r2_sources := (r2_sources st)
                (file \<mapsto> src\<lparr>etag := Some (js_or_str (res_etag r) ''''),
                             lastModified := Some (js_or_str (res_lastModified r) '''')\<rparr>)\<rparr>"
    using assms(1-3) run by (simp add: cycle_r2_def Let_def Promise_all_sources)
  with run m ps show ?thesis by blast
qed

lemma cycle_r2_sources_cases:
  "(\<exists>r items. result_of e src = Inr r \<and> modified r \<and> parseString e (xml r) = Inr items
       \<and> (\<forall>it \<in> set items. item_guid it \<noteq> None)
       \<and> r2_sources (cycle_r2 e file src st) =
           (r2_sources st)
             (file \<mapsto> src\<lparr>etag := Some (js_or_str (res_etag r) ''''),
                          lastModified := Some (js_or_str (res_lastModified r) '''')\<rparr>))
   \<or> ((\<forall>r items. result_of e src = Inr r \<and> modified r \<and> parseString e (xml r) = Inr items
           \<longrightarrow> (\<exists>it \<in> set items. item_guid it = None))
       \<and> r2_sources (cycle_r2 e file src st) = r2_sources st
       \<and> bucket (cycle_r2 e file src st) = bucket st)"
proof (cases "result_of e src")
  case (Inl msg)
  then show ?thesis by (simp add: cycle_r2_def)
next
  case (Inr r)
  show ?thesis
  proof (cases "modified r")
    case False
    with Inr show ?thesis by (simp add: cycle_r2_unmodified)
  next
    case True
    show ?thesis
    proof (cases "parseString e (xml r)")
      case (Inl msg)
      with Inr show ?thesis by (simp add: cycle_r2_parse_error)
    next
      case items: (Inr items)
      show ?thesis
      proof (cases "\<forall>it \<in> set items. item_guid it \<noteq> None")
        case all: True
        from cycle_r2_modified [OF Inr True items all, of "file" st]
        have "r2_sources (cycle_r2 e file src st) =
           (r2_sources st)
             (file \<mapsto> src\<lparr>etag := Some (js_or_str (res_etag r) ''''),
                          lastModified := Some (js_or_str (res_lastModified r) '''')\<rparr>)"
          by auto
        with Inr True items all show ?thesis by blast
      next
        case False
        let ?sh = "replace_first ''.json'' '''' file"
        obtain res ps where run: "upload_items e ?sh 0 items [] [] = (res, ps)"
          by (cases "upload_items e ?sh 0 items [] []")
        have "\<exists>msg. res = Inl msg"
        proof (cases res)
          case (Inl msg)
          then show ?thesis by simp
        next
          case (Inr m)
          with run upload_items_error [of e ?sh 0 items "[]" "[]" m] False
          show ?thesis by simp
        qed
        then obtain msg where "res = Inl msg" ..
        with Inr True items run
        have "cycle_r2 e file src st = st\<lparr>in_flight := in_flight st @ ps\<rparr>"
          by (simp add: cycle_r2_def Let_def)
        with Inr items False show ?thesis by auto
      qed
    qed
  qed
qed

text \<open>
  The uploads that a cycle leaves in flight: those that were in flight before it, and
  uploads of item documents of its own source. A cycle that waits for its uploads leaves
  none of its own.
\<close>

lemma settle_in_flight:
  "in_flight (foldl (\<lambda>st p. uploadToR2 e (fst p) (fst (snd p)) (snd (snd p)) st) st ps)
     = in_flight st"
  by (induction ps arbitrary: st) (simp_all add: uploadToR2_def)

lemma Promise_all_in_flight: "in_flight (Promise_all e ps st) = in_flight st"
  by (simp add: Promise_all_def settle_in_flight)

lemma upload_items_keys:
  "upload_items e sh i items m ps = (res, ps') \<Longrightarrow> p \<in> set ps' \<Longrightarrow>
   p \<in> set ps \<or> (\<exists>gd. fst (snd p) = item_key sh gd)"
proof (induction items arbitrary: i m ps)
  case Nil
  then show ?case by simp
next
  case (Cons it rest)
  show ?case
  proof (cases "item_guid it")
    case None
    with Cons.prems show ?thesis by simp
  next
    case (Some gd)
    let ?q = "(i, item_key sh gd, ItemBody (prettifyItem_part_000 e (new_item e i it gd) sh))"
    from Cons.prems(1) Some
    have "upload_items e sh (Suc i) rest (m @ [\<lparr>g = gd, h = getHash gd\<rparr>]) (ps @ [?q]) = (res, ps')"
      by (simp add: Let_def)
    from Cons.IH [OF this Cons.prems(2)]
    have "p \<in> set (ps @ [?q]) \<or> (\<exists>gd. fst (snd p) = item_key sh gd)" .
    then show ?thesis by auto
  qed
qed

lemma cycle_r2_modified_in_flight:
  assumes "result_of e src = Inr r" and "modified r"
    and "parseString e (xml r) = Inr items"
    and "\<forall>it \<in> set items. item_guid it \<noteq> None"
  shows "in_flight (cycle_r2 e file src st) = in_flight st"
proof -
  from cycle_r2_modified [OF assms, of "file" st]
  obtain m ps where "cycle_r2 e file src st =
               (Promise_all e
                  (ps @ [(length items, ''feeds/'' @ replace_first ''.json'' '''' file @ ''.json'',
                          ManifestBody m)]) st)
               \<lparr>r2_sources := (r2_sources st)
                     (file \<mapsto> src\<lparr>etag := Some (js_or_str (res_etag r) ''''),
                                  lastModified := Some (js_or_str (res_lastModified r) '''')\<rparr>)\<rparr>"
    by blast
  then show ?thesis by (simp add: Promise_all_in_flight)
qed

lemma cycle_r2_in_flight:
  assumes "p \<in> set (in_flight (cycle_r2 e file src st))"
  shows "p \<in> set (in_flight st)
       \<or> (\<exists>gd. fst (snd p) = item_key (replace_first ''.json'' '''' file) gd)"
proof (cases "result_of e src")
  case (Inl msg)
  with assms show ?thesis by (simp add: cycle_r2_def)
next
  case (Inr r)
  show ?thesis
  proof (cases "modified r")
    case False
    with Inr assms show ?thesis by (simp add: cycle_r2_unmodified)
  next
    case True
    show ?thesis
    proof (cases "parseString e (xml r)")
      case (Inl msg)
      with Inr assms show ?thesis by (simp add: cycle_r2_parse_error)
    next
      case items: (Inr items)
      let ?sh = "replace_first ''.json'' '''' file"
      obtain res ps where run: "upload_items e ?sh 0 items [] [] = (res, ps)"
        by (cases "upload_items e ?sh 0 items [] []")
      show ?thesis
      proof (cases res)
        case (Inl msg)
        with Inr True items run
        have "cycle_r2 e file src st = st\<lparr>in_flight := in_flight st @ ps\<rparr>"
          by (simp add: cycle_r2_def Let_def)
        with assms have "p \<in> set (in_flight st) \<or> p \<in> set ps" by auto
        with upload_items_keys [OF run, of p] show ?thesis by auto
      next
        case m: (Inr m)
        with run have "fst (upload_items e ?sh 0 items [] []) = Inr m" by simp
        then have "\<forall>it \<in> set items. item_guid it \<noteq> None"
          by (rule upload_items_error)
        from cycle_r2_modified_in_flight [OF Inr True items this, of "file" st] assms
        show ?thesis by simp
      qed
    qed
  qed
qed

section \<open>Validators, manifests and item documents\<close>

lemma run_fs_keeps_validators:
  "run_fs e files st = Inr st' \<Longrightarrow> sources_dir st f = Some src \<Longrightarrow>
   result_of e src = Inr r \<Longrightarrow> \<not> modified r \<Longrightarrow> sources_dir st' f = Some src"
proof (induction files arbitrary: st)
  case Nil
  then show ?case by simp
next
  case (Cons fl rest)
  from Cons.prems(1) obtain src' where src': "sources_dir st fl = Some src'"
    and rest: "run_fs e rest (cycle_fs e fl src' st) = Inr st'"
    by (auto split: option.splits)
  have "sources_dir (cycle_fs e fl src' st) f = Some src"
  proof (cases "fl = f")
    case True
    with src' Cons.prems(2) have "src' = src" by simp
    with Cons.prems show ?thesis by (simp add: cycle_fs_unmodified)
  next
    case False
    with Cons.prems(2) show ?thesis by (simp add: cycle_fs_other_sources)
  qed
  from Cons.IH [OF rest this Cons.prems(3,4)] show ?case .
qed

lemma cycle_r2_other_sources:
  "f \<noteq> file \<Longrightarrow> r2_sources (cycle_r2 e file src st) f = r2_sources st f"
  using cycle_r2_sources_cases [of e src "file" st] by auto

lemma run_r2_keeps_validators:
  "run_r2 e files st = Inr st' \<Longrightarrow> r2_sources st f = Some src \<Longrightarrow>
   result_of e src = Inr r \<Longrightarrow> \<not> modified r \<Longrightarrow> r2_sources st' f = Some src"
proof (induction files arbitrary: st)
  case Nil
  then show ?case by simp
next
  case (Cons fl rest)
  from Cons.prems(1) obtain src' where src': "r2_sources st fl = Some src'"
    and rest: "run_r2 e rest (cycle_r2 e fl src' st) = Inr st'"
    by (auto split: option.splits)
  have "r2_sources (cycle_r2 e fl src' st) f = Some src"
  proof (cases "fl = f")
    case True
    with src' Cons.prems(2) have "src' = src" by simp
    with Cons.prems show ?thesis by (simp add: cycle_r2_unmodified)
  next
    case False
    with Cons.prems(2) show ?thesis by (simp add: cycle_r2_other_sources)
  qed
  from Cons.IH [OF rest this Cons.prems(3,4)] show ?case .
qed

lemma cycle_fs_sources_changed:
  assumes "sources_dir (cycle_fs e file src st) \<noteq> sources_dir st"
  shows "\<exists>r items. result_of e src = Inr r \<and> modified r \<and> parseString e (xml r) = Inr items
           \<and> (\<forall>it \<in> set items. item_guid it \<noteq> None)"
  using cycle_fs_cases [of e src "file" st] assms by blast

lemma cycle_r2_sources_changed:
  assumes "r2_sources (cycle_r2 e file src st) \<noteq> r2_sources st"
  shows "\<exists>r items. result_of e src = Inr r \<and> modified r \<and> parseString e (xml r) = Inr items
           \<and> (\<forall>it \<in> set items. item_guid it \<noteq> None)"
  using cycle_r2_sources_cases [of e src "file" st] assms by blast

text \<open>Two example cycles: a request that times out, and a feed that has changed.\<close>

lemma example_failed:
  "result_of (example_env (Rejects ''timeout'') items) example_source =
     Inr \<lparr>modified = False, xml = None, res_etag = None, res_lastModified = None,
          error = Some ''timeout''\<rparr>"
  by (simp add: fetchFeed_cases example_env_def)

lemma example_modified:
  "result_of (example_env (Resolves (example_response tag)) items) example_source =
     Inr \<lparr>modified = True, xml = Some ''<rss></rss>'', res_etag = tag, res_lastModified = None,
          error = None\<rparr>"
  by (simp add: fetchFeed_cases example_env_def example_response_def ok_def)

lemma example_response_fetch:
  "fetch (example_env (Resolves (example_response tag)) items)
     (base64_decode (example_env (Resolves (example_response tag)) items) (u example_source))
     (request_headers (etag example_source) (lastModified example_source))
   = Resolves (example_response tag)"
  by (simp add: example_env_def)

lemma example_parse:
  "parseString (example_env outcome items) x = Inr items"
  by (simp add: example_env_def)

lemma example_item_guid: "gd \<noteq> [] \<Longrightarrow> item_guid (example_item gd t d) = Some gd"
  by (simp add: item_guid_def js_or_def truthy_def example_item_def)

lemma example_file: "replace_first ''.json'' '''' ''s.json'' = ''s''"
  by simp

lemma example_listing: "filter (\<lambda>f. endsWith f ''.json'') [''s.json'', ''README''] = [''s.json'']"
  by (simp add: endsWith_def)

text \<open>
  Claim C3. A cycle whose fetch result is not \<open>modified\<close> (a 304, or a failure turned
  into a result by \<open>fetchFeed\<close>) changes nothing at all, in either script; so after a run
  the validators stored for such a source are those stored before it. A cycle changes a
  source document only when the fetch was \<open>modified\<close>, the feed was parsed and every
  item had an identifier.
\<close>

theorem validators_kept_unless_modified:
  "(\<forall>r. result_of e src = Inr r \<and> \<not> modified r \<longrightarrow>
        cycle_fs e file src st = st \<and> cycle_r2 e file src st2 = st2)
   \<and> (\<forall>r st'. main_fs e files st = Inr st' \<and> sources_dir st file = Some src
          \<and> result_of e src = Inr r \<and> \<not> modified r \<longrightarrow> sources_dir st' file = Some src)
   \<and> (\<forall>r st'. main_r2 e files st2 = Inr st' \<and> r2_sources st2 file = Some src
          \<and> result_of e src = Inr r \<and> \<not> modified r \<longrightarrow> r2_sources st' file = Some src)
   \<and> (sources_dir (cycle_fs e file src st) \<noteq> sources_dir st \<longrightarrow>
        (\<exists>r items. result_of e src = Inr r \<and> modified r \<and> parseString e (xml r) = Inr items
           \<and> (\<forall>it \<in> set items. item_guid it \<noteq> None)))
   \<and> (r2_sources (cycle_r2 e file src st2) \<noteq> r2_sources st2 \<longrightarrow>
        (\<exists>r items. result_of e src = Inr r \<and> modified r \<and> parseString e (xml r) = Inr items
           \<and> (\<forall>it \<in> set items. item_guid it \<noteq> None)))"
proof (intro conjI allI impI)
  fix r assume "result_of e src = Inr r \<and> \<not> modified r"
  then show "cycle_fs e file src st = st" and "cycle_r2 e file src st2 = st2"
    by (simp_all add: cycle_fs_unmodified cycle_r2_unmodified)
next
  fix r st'
  assume "main_fs e files st = Inr st' \<and> sources_dir st file = Some src
          \<and> result_of e src = Inr r \<and> \<not> modified r"
  then show "sources_dir st' file = Some src"
    unfolding main_fs_def using run_fs_keeps_validators by blast
next
  fix r st'
  assume "main_r2 e files st2 = Inr st' \<and> r2_sources st2 file = Some src
          \<and> result_of e src = Inr r \<and> \<not> modified r"
  then show "r2_sources st' file = Some src"
    unfolding main_r2_def using run_r2_keeps_validators by blast
next
  assume "sources_dir (cycle_fs e file src st) \<noteq> sources_dir st"
  then show "\<exists>r items. result_of e src = Inr r \<and> modified r \<and> parseString e (xml r) = Inr items
           \<and> (\<forall>it \<in> set items. item_guid it \<noteq> None)"
    by (rule cycle_fs_sources_changed)
next
  assume "r2_sources (cycle_r2 e file src st2) \<noteq> r2_sources st2"
  then show "\<exists>r items. result_of e src = Inr r \<and> modified r \<and> parseString e (xml r) = Inr items
           \<and> (\<forall>it \<in> set items. item_guid it \<noteq> None)"
    by (rule cycle_r2_sources_changed)
qed

theorem validators_kept_unless_modified_witness:
  "cycle_fs (example_env (Rejects ''timeout'') []) ''s.json'' example_source
     (empty_fs\<lparr>sources_dir := [''s.json'' \<mapsto> example_source]\<rparr>)
     = empty_fs\<lparr>sources_dir := [''s.json'' \<mapsto> example_source]\<rparr>
   \<and> cycle_r2 (example_env (Rejects ''timeout'') []) ''s.json'' example_source
       (empty_r2\<lparr>r2_sources := [''s.json'' \<mapsto> example_source]\<rparr>)
     = empty_r2\<lparr>r2_sources := [''s.json'' \<mapsto> example_source]\<rparr>
   \<and> main_fs (example_env (Rejects ''timeout'') []) [''s.json'', ''README'']
       (empty_fs\<lparr>sources_dir := [''s.json'' \<mapsto> example_source]\<rparr>)
     = Inr (empty_fs\<lparr>sources_dir := [''s.json'' \<mapsto> example_source]\<rparr>)
   \<and> sources_dir
       (cycle_fs
          (example_env (Resolves (example_response (Some ''v2''))) [example_item ''g1'' ''T'' None])
          ''s.json'' example_source (empty_fs\<lparr>sources_dir := [''s.json'' \<mapsto> example_source]\<rparr>))
     \<noteq> sources_dir (empty_fs\<lparr>sources_dir := [''s.json'' \<mapsto> example_source]\<rparr>)
   \<and> (\<exists>r. result_of
              (example_env (Resolves (example_response (Some ''v2'')))
                 [example_item ''g1'' ''T'' None])
              example_source = Inr r
          \<and> modified r)"
proof -
  let ?st = "empty_fs\<lparr>sources_dir := [''s.json'' \<mapsto> example_source]\<rparr>"
  let ?st2 = "empty_r2\<lparr>r2_sources := [''s.json'' \<mapsto> example_source]\<rparr>"
  let ?e = "example_env (Rejects ''timeout'') []"
  let ?items = "[example_item ''g1'' ''T'' None]"
  let ?e2 = "example_env (Resolves (example_response (Some ''v2''))) ?items"
  have kept: "cycle_fs ?e ''s.json'' example_source ?st = ?st
      \<and> cycle_r2 ?e ''s.json'' example_source ?st2 = ?st2
      \<and> main_fs ?e [''s.json'', ''README''] ?st = Inr ?st"
    using validators_kept_unless_modified
      [of ?e example_source "''s.json''" ?st ?st2 "[''s.json'', ''README'']"]
      example_failed [of "[]"] example_listing
    by (simp add: main_fs_def)
  have guids: "\<forall>it \<in> set ?items. item_guid it \<noteq> None"
    by (simp add: example_item_guid)
  from cycle_fs_modified
    [of ?e2 example_source _ ?items "''s.json''" ?st, OF example_modified _ example_parse guids]
  have "sources_dir (cycle_fs ?e2 ''s.json'' example_source ?st) ''s.json''
          = Some (example_source\<lparr>etag := Some ''v2'', lastModified := Some ''''\<rparr>)"
    by (auto simp: js_or_str_def)
  then have "sources_dir (cycle_fs ?e2 ''s.json'' example_source ?st) ''s.json''
               \<noteq> sources_dir ?st ''s.json''"
    by (simp add: example_source_def)
  then have changed: "sources_dir (cycle_fs ?e2 ''s.json'' example_source ?st) \<noteq> sources_dir ?st"
    by metis
  from validators_kept_unless_modified
    [of ?e2 example_source "''s.json''" ?st ?st2 "[]", THEN conjunct2, THEN conjunct2,
      THEN conjunct2, THEN conjunct1, rule_format, OF changed]
  have "\<exists>r. result_of ?e2 example_source = Inr r \<and> modified r"
    by blast
  with kept changed show ?thesis by blast
qed

lemma result_of_response:
  assumes "fetch e (base64_decode e (u src)) (request_headers (etag src) (lastModified src))
             = Resolves resp"
    and "status resp \<noteq> 304" and "ok resp" and "text_body resp = Inr x"
  shows "result_of e src =
           Inr \<lparr>modified = True, xml = Some x, res_etag = header_etag resp,
                res_lastModified = header_last_modified resp, error = None\<rparr>"
  using assms by (simp add: fetchFeed_cases)

text \<open>
  Claim C10. After a cycle whose request got a successful response other than 304, whose
  body was read and parsed and whose items all have an identifier, both scripts have
  stored for the source exactly the response's \<open>etag\<close> and \<open>last-modified\<close> headers,
  with the empty string for a header that the response does not carry. A response
  without either header therefore replaces the stored validators by empty strings.
\<close>

theorem validators_set_from_response:
  assumes "fetch e (base64_decode e (u src)) (request_headers (etag src) (lastModified src))
             = Resolves resp"
    and "status resp \<noteq> 304" and "ok resp" and "text_body resp = Inr x"
    and "parseString e (Some x) = Inr items"
    and "\<forall>it \<in> set items. item_guid it \<noteq> None"
  shows "sources_dir (cycle_fs e file src st) file =
           Some (src\<lparr>etag := Some (case header_etag resp of None \<Rightarrow> '''' | Some s \<Rightarrow> s),
                     lastModified :=
                       Some (case header_last_modified resp of None \<Rightarrow> '''' | Some s \<Rightarrow> s)\<rparr>)
       \<and> r2_sources (cycle_r2 e file src st2) file =
           Some (src\<lparr>etag := Some (case header_etag resp of None \<Rightarrow> '''' | Some s \<Rightarrow> s),
                     lastModified :=
                       Some (case header_last_modified resp of None \<Rightarrow> '''' | Some s \<Rightarrow> s)\<rparr>)
       \<and> (header_etag resp = None \<and> header_last_modified resp = None \<longrightarrow>
            sources_dir (cycle_fs e file src st) file =
              Some (src\<lparr>etag := Some '''', lastModified := Some ''''\<rparr>)
            \<and> r2_sources (cycle_r2 e file src st2) file =
              Some (src\<lparr>etag := Some '''', lastModified := Some ''''\<rparr>))"
proof -
  let ?r = "\<lparr>modified = True, xml = Some x, res_etag = header_etag resp,
             res_lastModified = header_last_modified resp, error = None\<rparr>"
  let ?src' = "src\<lparr>etag := Some (case header_etag resp of None \<Rightarrow> '''' | Some s \<Rightarrow> s),
                   lastModified :=
                     Some (case header_last_modified resp of None \<Rightarrow> '''' | Some s \<Rightarrow> s)\<rparr>"
  have r: "result_of e src = Inr ?r"
    using assms(1-4) by (rule result_of_response)
  have m: "modified ?r" and p: "parseString e (xml ?r) = Inr items"
    using assms(5) by simp_all
  from cycle_fs_modified [OF r m p assms(6), of "file" st]
  have fs: "sources_dir (cycle_fs e file src st) file = Some ?src'"
    by (auto simp: js_or_str_empty)
  from cycle_r2_sources_cases [of e src "file" st2] r m p assms(6)
  have "r2_sources (cycle_r2 e file src st2) =
          (r2_sources st2)
            (file \<mapsto> src\<lparr>etag := Some (js_or_str (res_etag ?r) ''''),
                         lastModified := Some (js_or_str (res_lastModified ?r) '''')\<rparr>)"
    by auto
  then have r2: "r2_sources (cycle_r2 e file src st2) file = Some ?src'"
    by (simp add: js_or_str_empty)
  from fs r2 show ?thesis by auto
qed

theorem validators_set_from_response_witness:
  "sources_dir
     (cycle_fs (example_env (Resolves (example_response None)) [example_item ''g1'' ''T'' None])
        ''s.json'' example_source (empty_fs\<lparr>sources_dir := [''s.json'' \<mapsto> example_source]\<rparr>))
     ''s.json''
   = Some \<lparr>u = ''aHR0cDovL3g='', etag = Some '''', lastModified = Some ''''\<rparr>
   \<and> r2_sources
     (cycle_r2 (example_env (Resolves (example_response None)) [example_item ''g1'' ''T'' None])
        ''s.json'' example_source (empty_r2\<lparr>r2_sources := [''s.json'' \<mapsto> example_source]\<rparr>))
     ''s.json''
   = Some \<lparr>u = ''aHR0cDovL3g='', etag = Some '''', lastModified = Some ''''\<rparr>
   \<and> etag example_source = Some ''v1''"
  using validators_set_from_response
    [OF example_response_fetch [of None "[example_item ''g1'' ''T'' None]"],
      of "''<rss></rss>''" "[example_item ''g1'' ''T'' None]" "''s.json''"
        "empty_fs\<lparr>sources_dir := [''s.json'' \<mapsto> example_source]\<rparr>"
        "empty_r2\<lparr>r2_sources := [''s.json'' \<mapsto> example_source]\<rparr>"]
  by (simp add: example_parse example_item_guid example_response_def ok_def example_source_def)

text \<open>The manifest that the object-storage script uploads, when that upload succeeds.\<close>

lemma cycle_r2_manifest:
  assumes "result_of e src = Inr r" and "modified r"
    and "parseString e (xml r) = Inr items"
    and "\<forall>it \<in> set items. item_guid it \<noteq> None"
    and "send_ok e (length items) (''feeds/'' @ replace_first ''.json'' '''' file @ ''.json'')"
  shows "\<exists>m. bucket (cycle_r2 e file src st)
                (''feeds/'' @ replace_first ''.json'' '''' file @ ''.json'')
              = Some (ManifestBody m)
           \<and> map (\<lambda>en. Some (g en)) m = map item_guid items
           \<and> (\<forall>en \<in> set m. h en = getHash (g en))"
proof -
  let ?sh = "replace_first ''.json'' '''' file"
  let ?k = "''feeds/'' @ ?sh @ ''.json''"
  from cycle_r2_modified [OF assms(1-4), of "file" st]
  obtain m ps where m: "map (\<lambda>en. Some (g en)) m = map item_guid items"
      "\<forall>en \<in> set m. h en = getHash (g en)"
    and len: "length ps = length items"
    and nth: "\<forall>n < length items. \<exists>gd. item_guid (items ! n) = Some gd
          \<and> ps ! n = (n, item_key ?sh gd,
                ItemBody (prettifyItem_part_000 e (new_item e n (items ! n) gd) ?sh))"
    and c: "cycle_r2 e file src st =
               (Promise_all e (ps @ [(length items, ?k, ManifestBody m)]) st)
               \<lparr>r2_sources := (r2_sources st)
                     (file \<mapsto> src\<lparr>etag := Some (js_or_str (res_etag r) ''''),
                                  lastModified := Some (js_or_str (res_lastModified r) '''')\<rparr>)\<rparr>"
    by blast
  let ?p = "(length items, ?k, ManifestBody m)"
  have only: "\<forall>q \<in> set (ps @ [?p]). fst (snd q) = ?k \<longrightarrow> q = ?p"
  proof (intro ballI impI)
    fix q assume q: "q \<in> set (ps @ [?p])" and k: "fst (snd q) = ?k"
    show "q = ?p"
    proof (cases "q \<in> set ps")
      case True
      then obtain n where n: "n < length ps" "ps ! n = q"
        by (auto simp: in_set_conv_nth)
      with len nth obtain gd where "q = (n, item_key ?sh gd,
                ItemBody (prettifyItem_part_000 e (new_item e n (items ! n) gd) ?sh))"
        by auto
      with k show ?thesis by simp
    next
      case False
      with q show ?thesis by simp
    qed
  qed
  have "bucket (Promise_all e (ps @ [?p]) st) ?k = Some (ManifestBody m)"
    by (rule Promise_all_one [OF _ only assms(5)]) simp
  with c have "bucket (cycle_r2 e file src st) ?k = Some (ManifestBody m)"
    by simp
  with m show ?thesis by blast
qed

text \<open>A cycle in which some item has no identifier writes no manifest and no source.\<close>

lemma cycle_fs_nameless:
  assumes "result_of e src = Inr r" and "parseString e (xml r) = Inr items"
    and "\<exists>it \<in> set items. item_guid it = None"
  shows "feeds_dir (cycle_fs e file src st) = feeds_dir st
       \<and> sources_dir (cycle_fs e file src st) = sources_dir st"
  using cycle_fs_cases [of e src "file" st] assms by auto

lemma cycle_r2_nameless:
  assumes "result_of e src = Inr r" and "parseString e (xml r) = Inr items"
    and "\<exists>it \<in> set items. item_guid it = None"
  shows "bucket (cycle_r2 e file src st) = bucket st
       \<and> r2_sources (cycle_r2 e file src st) = r2_sources st"
  using cycle_r2_sources_cases [of e src "file" st] assms by auto

lemma example_item_without_id_guid: "item_guid example_item_without_id = None"
  by (simp add: item_guid_def js_or_def truthy_def example_item_without_id_def)

text \<open>
  Claim C7 fails for a feed that holds an item without \<open>guid\<close> and \<open>link\<close>. The fetch
  is successful and modified and the feed is parsed, but \<open>getHash(undefined)\<close> throws at
  the second item, the error is caught for the source, and the manifest that was there
  before, with its entry \<open>g0\<close> that the feed does not have, is still there.
\<close>

theorem manifest_kept_for_nameless_item:
  "result_of
     (example_env (Resolves (example_response None))
        [example_item ''g1'' ''T'' None, example_item_without_id, example_item ''g3'' ''T'' None])
     example_source
   = Inr \<lparr>modified = True, xml = Some ''<rss></rss>'', res_etag = None, res_lastModified = None,
          error = None\<rparr>
   \<and> feeds_dir one_entry_fs ''s'' = Some [\<lparr>g = ''g0'', h = getHash ''g0''\<rparr>]
   \<and> feeds_dir nameless_sync ''s'' = Some [\<lparr>g = ''g0'', h = getHash ''g0''\<rparr>]"
proof -
  let ?items = "[example_item ''g1'' ''T'' None, example_item_without_id,
                 example_item ''g3'' ''T'' None]"
  let ?e = "example_env (Resolves (example_response None)) ?items"
  have "\<exists>it \<in> set ?items. item_guid it = None"
    by (simp add: example_item_without_id_guid)
  from cycle_fs_nameless [of ?e example_source _ ?items "''s.json''" one_entry_fs,
      OF example_modified example_parse this]
  have "feeds_dir nameless_sync = feeds_dir one_entry_fs"
    by (simp add: nameless_sync_def)
  then show ?thesis
    by (simp add: example_modified one_entry_fs_def empty_fs_def)
qed

text \<open>
  Claim C7, as the code has it. Take a cycle whose fetch was \<open>modified\<close> and whose feed was
  parsed. When every item of the feed has an identifier (\<open>guid\<close>, or else \<open>link\<close>), the
  filesystem script leaves as the manifest of the source one entry for each item of the
  feed, in the order of the feed, holding the item's identifier and the hash of that
  identifier; it does not depend on the manifest that was there before, so every entry of
  it comes from an item of the feed; and the object-storage script uploads the same
  manifest, which the bucket holds when that upload succeeds. When some item has no
  identifier, the cycle ends in the handler of the source's errors: no manifest is written
  and the earlier one stays; in the object-storage script the bucket is as it was when the
  cycle ends, and the uploads that the cycle has sent and not waited for are uploads of
  item documents. The manifests of the other sources are never touched.
\<close>

theorem manifest_replaced:
  assumes "result_of e src = Inr r" and "modified r"
    and "parseString e (xml r) = Inr items"
  shows "((\<forall>it \<in> set items. item_guid it \<noteq> None) \<longrightarrow>
           (\<exists>m. feeds_dir (cycle_fs e file src st) (replace_first ''.json'' '''' file) = Some m
              \<and> length m = length items
              \<and> map (\<lambda>en. Some (g en)) m = map item_guid items
              \<and> (\<forall>en \<in> set m. h en = getHash (g en))
              \<and> (\<forall>en \<in> set m. \<exists>it \<in> set items. item_guid it = Some (g en))
              \<and> (send_ok e (length items)
                    (''feeds/'' @ replace_first ''.json'' '''' file @ ''.json'')
                   \<longrightarrow> bucket (cycle_r2 e file src st2)
                         (''feeds/'' @ replace_first ''.json'' '''' file @ ''.json'')
                       = Some (ManifestBody m))))
       \<and> ((\<exists>it \<in> set items. item_guid it = None) \<longrightarrow>
            feeds_dir (cycle_fs e file src st) = feeds_dir st
            \<and> bucket (cycle_r2 e file src st2) = bucket st2
            \<and> (\<forall>p \<in> set (in_flight (cycle_r2 e file src st2)).
                  p \<in> set (in_flight st2)
                  \<or> (\<exists>gd. fst (snd p) = item_key (replace_first ''.json'' '''' file) gd)))
       \<and> (\<forall>s. s \<noteq> replace_first ''.json'' '''' file \<longrightarrow>
              feeds_dir (cycle_fs e file src st) s = feeds_dir st s)"
proof (intro conjI impI)
  assume all: "\<forall>it \<in> set items. item_guid it \<noteq> None"
  from cycle_fs_modified [OF assms all, of "file" st]
  obtain m st' where m: "map (\<lambda>en. Some (g en)) m = map item_guid items"
      "\<forall>en \<in> set m. h en = getHash (g en)"
    and c: "cycle_fs e file src st =
               st'\<lparr>feeds_dir := (feeds_dir st')(replace_first ''.json'' '''' file \<mapsto> m),
                   sources_dir := (sources_dir st')
                     (file \<mapsto> src\<lparr>etag := Some (js_or_str (res_etag r) ''''),
                                  lastModified := Some (js_or_str (res_lastModified r) '''')\<rparr>)\<rparr>"
    by blast
  have 1: "feeds_dir (cycle_fs e file src st) (replace_first ''.json'' '''' file) = Some m"
    using c by simp
  have 2: "length m = length items"
    using m(1) by (rule map_eq_imp_length_eq)
  have 3: "\<forall>en \<in> set m. \<exists>it \<in> set items. item_guid it = Some (g en)"
  proof
    fix en assume "en \<in> set m"
    then have "Some (g en) \<in> set (map (\<lambda>en. Some (g en)) m)" by force
    with m(1) have "Some (g en) \<in> set (map item_guid items)" by simp
    then show "\<exists>it \<in> set items. item_guid it = Some (g en)" by auto
  qed
  have 5: "send_ok e (length items) (''feeds/'' @ replace_first ''.json'' '''' file @ ''.json'')
             \<longrightarrow> bucket (cycle_r2 e file src st2)
                   (''feeds/'' @ replace_first ''.json'' '''' file @ ''.json'')
                 = Some (ManifestBody m)"
  proof
    assume "send_ok e (length items) (''feeds/'' @ replace_first ''.json'' '''' file @ ''.json'')"
    from cycle_r2_manifest [OF assms all this, of st2]
    obtain m' where m': "bucket (cycle_r2 e file src st2)
                (''feeds/'' @ replace_first ''.json'' '''' file @ ''.json'')
              = Some (ManifestBody m')"
      "map (\<lambda>en. Some (g en)) m' = map item_guid items" "\<forall>en \<in> set m'. h en = getHash (g en)"
      by blast
    have "m' = m"
    proof (rule nth_equalityI)
      show "length m' = length m"
        using m'(2) m(1) by (metis length_map)
    next
      fix i assume i: "i < length m'"
      then have "i < length m" using m'(2) m(1) by (metis length_map)
      have "Some (g (m' ! i)) = Some (g (m ! i))"
        using m'(2) m(1) i \<open>i < length m\<close> by (metis nth_map)
      then have "g (m' ! i) = g (m ! i)" by simp
      moreover have "h (m' ! i) = getHash (g (m' ! i))" using m'(3) i by simp
      moreover have "h (m ! i) = getHash (g (m ! i))" using m(2) \<open>i < length m\<close> by simp
      ultimately show "m' ! i = m ! i" by simp
    qed
    with m'(1) show "bucket (cycle_r2 e file src st2)
                   (''feeds/'' @ replace_first ''.json'' '''' file @ ''.json'')
                 = Some (ManifestBody m)" by simp
  qed
  from 1 2 3 5 m
  show "\<exists>m. feeds_dir (cycle_fs e file src st) (replace_first ''.json'' '''' file) = Some m
              \<and> length m = length items
              \<and> map (\<lambda>en. Some (g en)) m = map item_guid items
              \<and> (\<forall>en \<in> set m. h en = getHash (g en))
              \<and> (\<forall>en \<in> set m. \<exists>it \<in> set items. item_guid it = Some (g en))
              \<and> (send_ok e (length items)
                    (''feeds/'' @ replace_first ''.json'' '''' file @ ''.json'')
                   \<longrightarrow> bucket (cycle_r2 e file src st2)
                         (''feeds/'' @ replace_first ''.json'' '''' file @ ''.json'')
                       = Some (ManifestBody m))"
    by blast
next
  assume none: "\<exists>it \<in> set items. item_guid it = None"
  from cycle_fs_nameless [OF assms(1,3) none, of "file" st]
  show "feeds_dir (cycle_fs e file src st) = feeds_dir st" by simp
  from cycle_r2_nameless [OF assms(1,3) none, of "file" st2]
  show "bucket (cycle_r2 e file src st2) = bucket st2" by simp
  show "\<forall>p \<in> set (in_flight (cycle_r2 e file src st2)).
          p \<in> set (in_flight st2)
          \<or> (\<exists>gd. fst (snd p) = item_key (replace_first ''.json'' '''' file) gd)"
    using cycle_r2_in_flight by blast
next
  show "\<forall>s. s \<noteq> replace_first ''.json'' '''' file \<longrightarrow>
              feeds_dir (cycle_fs e file src st) s = feeds_dir st s"
    by (simp add: cycle_fs_other_feeds)
qed

theorem manifest_replaced_witness:
  "feeds_dir
     (cycle_fs
        (example_env (Resolves (example_response None))
           [example_item ''g1'' ''T'' None, example_item ''g2'' ''T'' None])
        ''s.json'' example_source
        (empty_fs\<lparr>feeds_dir := [''s'' \<mapsto> [\<lparr>g = ''g0'', h = getHash ''g0''\<rparr>]]\<rparr>))
     ''s''
   = Some [\<lparr>g = ''g1'', h = getHash ''g1''\<rparr>, \<lparr>g = ''g2'', h = getHash ''g2''\<rparr>]
   \<and> bucket
     (cycle_r2
        (example_env (Resolves (example_response None))
           [example_item ''g1'' ''T'' None, example_item ''g2'' ''T'' None])
        ''s.json'' example_source
        (empty_r2\<lparr>bucket := [''feeds/s.json'' \<mapsto> ManifestBody [\<lparr>g = ''g0'', h = getHash ''g0''\<rparr>]]\<rparr>))
     ''feeds/s.json''
   = Some (ManifestBody [\<lparr>g = ''g1'', h = getHash ''g1''\<rparr>, \<lparr>g = ''g2'', h = getHash ''g2''\<rparr>])
   \<and> feeds_dir
     (cycle_fs
        (example_env (Resolves (example_response None))
           [example_item ''g1'' ''T'' None, example_item_without_id])
        ''s.json'' example_source
        (empty_fs\<lparr>feeds_dir := [''s'' \<mapsto> [\<lparr>g = ''g0'', h = getHash ''g0''\<rparr>]]\<rparr>))
     ''s''
   = Some [\<lparr>g = ''g0'', h = getHash ''g0''\<rparr>]"
proof -
  let ?items = "[example_item ''g1'' ''T'' None, example_item ''g2'' ''T'' None]"
  let ?e = "example_env (Resolves (example_response None)) ?items"
  let ?st = "empty_fs\<lparr>feeds_dir := [''s'' \<mapsto> [\<lparr>g = ''g0'', h = getHash ''g0''\<rparr>]]\<rparr>"
  let ?st2 = "empty_r2\<lparr>bucket := [''feeds/s.json'' \<mapsto> ManifestBody [\<lparr>g = ''g0'', h = getHash ''g0''\<rparr>]]\<rparr>"
  have guids: "\<forall>it \<in> set ?items. item_guid it \<noteq> None"
    by (simp add: example_item_guid)
  have sent: "send_ok ?e (length ?items) (''feeds/'' @ replace_first ''.json'' '''' ''s.json'' @ ''.json'')"
    by (simp add: example_env_def)
  from manifest_replaced
    [of ?e example_source _ ?items "''s.json''" ?st ?st2,
      OF example_modified _ example_parse, THEN conjunct1, THEN mp, OF _ guids]
  obtain m where m: "feeds_dir (cycle_fs ?e ''s.json'' example_source ?st) ''s'' = Some m"
    "map (\<lambda>en. Some (g en)) m = map item_guid ?items" "\<forall>en \<in> set m. h en = getHash (g en)"
    and b: "send_ok ?e (length ?items) (''feeds/'' @ replace_first ''.json'' '''' ''s.json'' @ ''.json'')
            \<longrightarrow> bucket (cycle_r2 ?e ''s.json'' example_source ?st2)
                  (''feeds/'' @ replace_first ''.json'' '''' ''s.json'' @ ''.json'')
                = Some (ManifestBody m)"
    by auto
  from m(2) obtain a b where ab: "m = [a, b]" "g a = ''g1''" "g b = ''g2''"
    by (auto simp: example_item_guid map_eq_Cons_conv)
  with m(3) have "a = \<lparr>g = ''g1'', h = getHash ''g1''\<rparr>" "b = \<lparr>g = ''g2'', h = getHash ''g2''\<rparr>"
    by auto
  with m(1) ab(1) b sent have first:
    "feeds_dir (cycle_fs ?e ''s.json'' example_source ?st) ''s''
       = Some [\<lparr>g = ''g1'', h = getHash ''g1''\<rparr>, \<lparr>g = ''g2'', h = getHash ''g2''\<rparr>]
     \<and> bucket (cycle_r2 ?e ''s.json'' example_source ?st2) ''feeds/s.json''
       = Some (ManifestBody [\<lparr>g = ''g1'', h = getHash ''g1''\<rparr>, \<lparr>g = ''g2'', h = getHash ''g2''\<rparr>])"
    by simp
  let ?items' = "[example_item ''g1'' ''T'' None, example_item_without_id]"
  let ?e' = "example_env (Resolves (example_response None)) ?items'"
  have none: "\<exists>it \<in> set ?items'. item_guid it = None"
    by (simp add: example_item_without_id_guid)
  from manifest_replaced
    [of ?e' example_source _ ?items' "''s.json''" ?st ?st2,
      OF example_modified _ example_parse, THEN conjunct2, THEN conjunct1, THEN mp,
      OF _ none]
  have "feeds_dir (cycle_fs ?e' ''s.json'' example_source ?st) = feeds_dir ?st"
    by simp
  then have "feeds_dir (cycle_fs ?e' ''s.json'' example_source ?st) ''s''
               = Some [\<lparr>g = ''g0'', h = getHash ''g0''\<rparr>]"
    by (simp add: empty_fs_def)
  with first show ?thesis by blast
qed

section \<open>Titles and timestamps of item documents\<close>

text \<open>
  The title \<open>A \<emdash> B \<emdash> C\<close> of the specification's example, with real em dashes, as
  \<open>wrapTitle\<close> of \<open>scripts/ingest-rss.js\<close> formats it.
\<close>

lemma wrapTitle_example:
  "wrapTitle (''A'' @ title_sep @ ''B'' @ title_sep @ ''C'') ''http://x'' =
     ''<h1><a href=\"http://x\" target=\"_blank\">A</a></h1><h2>B</h2><h2>C</h2>''"
  by (simp add: wrapTitle_def wrapTitle_with_def split_def title_sep_def)

lemma wrapTitle_segments:
  "split t title_sep = p # ps \<Longrightarrow>
   wrapTitle t l =
     ''<h1><a href=\"'' @ l @ ''\" target=\"_blank\">'' @ p @ ''</a></h1>''
     @ concat (map (\<lambda>p. ''<h2>'' @ p @ ''</h2>'') ps)"
  by (simp add: wrapTitle_def wrapTitle_with_parts title_sep_def)

text \<open>
  Claim C2, at the input of the specification's example. The two scripts of
  \<open>unnamed/part_000\<close> split on another byte sequence than the em dash, so there the
  title stays in one piece inside the \<open>h1\<close> and no \<open>h2\<close> is made; the copy of
  \<open>scripts/ingest-rss.js\<close> gives the three headings.
\<close>

theorem wrapTitle_part_000_example:
  "wrapTitle_part_000 (''A'' @ title_sep @ ''B'' @ title_sep @ ''C'') ''http://x'' =
     ''<h1><a href=\"http://x\" target=\"_blank\">A'' @ title_sep @ ''B'' @ title_sep
       @ ''C</a></h1>''
   \<and> wrapTitle_part_000 (''A'' @ title_sep @ ''B'' @ title_sep @ ''C'') ''http://x'' \<noteq>
       ''<h1><a href=\"http://x\" target=\"_blank\">A</a></h1><h2>B</h2><h2>C</h2>''
   \<and> wrapTitle (''A'' @ title_sep @ ''B'' @ title_sep @ ''C'') ''http://x'' =
       ''<h1><a href=\"http://x\" target=\"_blank\">A</a></h1><h2>B</h2><h2>C</h2>''"
  by (simp add: wrapTitle_part_000_def wrapTitle_def wrapTitle_with_def split_def title_sep_def
      title_sep_part_000_def)

text \<open>The first item of a feed whose key is free is written as \<open>prettifyItem\<close> returns it.\<close>

lemma cycle_fs_writes_first:
  assumes "result_of e src = Inr r" and "modified r"
    and "parseString e (xml r) = Inr (it # rest)"
    and "item_guid it = Some gd"
    and "items_root st (replace_first ''.json'' '''' file, getHash gd) = None"
  shows "items_root (cycle_fs e file src st) (replace_first ''.json'' '''' file, getHash gd) =
           Some (prettifyItem e (new_item e 0 it gd) (replace_first ''.json'' '''' file))"
proof -
  let ?sh = "replace_first ''.json'' '''' file"
  let ?d = "prettifyItem e (new_item e 0 it gd) ?sh"
  let ?st1 = "st\<lparr>items_root := (items_root st)((?sh, getHash gd) \<mapsto> ?d)\<rparr>"
  let ?loop = "sync_items e ?sh (Suc 0) rest [\<lparr>g = gd, h = getHash gd\<rparr>] ?st1"
  have first: "sync_items e ?sh 0 (it # rest) [] st = ?loop"
    using assms(4,5) by (simp add: Let_def)
  have "items_root ?st1 (?sh, getHash gd) = Some ?d" by simp
  then have kept: "items_root (snd ?loop) (?sh, getHash gd) = Some ?d"
    by (rule sync_items_keeps)
  obtain res st' where loop: "?loop = (res, st')" by (cases ?loop)
  with kept have "items_root st' (?sh, getHash gd) = Some ?d" by simp
  then show ?thesis
    using assms(1-3) first loop
    by (cases res) (simp_all add: cycle_fs_def Let_def)
qed

text \<open>
  Claim C9. The title that \<open>prettifyItem\<close> stores is \<open>wrapTitle\<close> of the raw title and
  the raw link (or their placeholders); it is the same whatever the sanitizer does, and
  only the description goes through \<open>cleanHtml\<close>. A title without a space (hence without
  the separator) and the link are copied into the markup as they are. The filesystem
  script writes the document with this title.
\<close>

theorem title_not_sanitized:
  "title (prettifyItem e it sh) =
     Some (wrapTitle (js_or_str (title it) ''No Title'') (js_or_str (link it) ''#''))
   \<and> title (prettifyItem (e\<lparr>sanitizeHtml := s\<rparr>) it sh) = title (prettifyItem e it sh)
   \<and> description (prettifyItem e it sh) =
       Some (cleanHtml (sanitizeHtml e) (Some (js_or_str (description it) '''')))
   \<and> (\<forall>t l. title it = Some t \<and> link it = Some l \<and> t \<noteq> [] \<and> l \<noteq> [] \<and> CHR '' '' \<notin> set t \<longrightarrow>
         title (prettifyItem e it sh) =
           Some (''<h1><a href=\"'' @ l @ ''\" target=\"_blank\">'' @ t @ ''</a></h1>''))
   \<and> (\<forall>src r rss rest gd file (st :: fs_state).
         result_of e src = Inr r \<and> modified r \<and> parseString e (xml r) = Inr (rss # rest)
         \<and> item_guid rss = Some gd
         \<and> items_root st (replace_first ''.json'' '''' file, getHash gd) = None \<longrightarrow>
         (\<exists>d. items_root (cycle_fs e file src st) (replace_first ''.json'' '''' file, getHash gd)
                = Some d
              \<and> title d =
                  Some (wrapTitle (js_or_str (rss_title rss) ''No Title'')
                          (js_or_str (rss_link rss) ''#''))))"
proof (intro conjI allI impI)
  show "title (prettifyItem e it sh) =
     Some (wrapTitle (js_or_str (title it) ''No Title'') (js_or_str (link it) ''#''))"
    by (simp add: prettifyItem_def)
  show "title (prettifyItem (e\<lparr>sanitizeHtml := s\<rparr>) it sh) = title (prettifyItem e it sh)"
    by (simp add: prettifyItem_def)
  show "description (prettifyItem e it sh) =
       Some (cleanHtml (sanitizeHtml e) (Some (js_or_str (description it) '''')))"
    by (simp add: prettifyItem_def)
next
  fix t l
  assume "title it = Some t \<and> link it = Some l \<and> t \<noteq> [] \<and> l \<noteq> [] \<and> CHR '' '' \<notin> set t"
  then show "title (prettifyItem e it sh) =
           Some (''<h1><a href=\"'' @ l @ ''\" target=\"_blank\">'' @ t @ ''</a></h1>'')"
    by (simp add: prettifyItem_def js_or_str_def wrapTitle_no_space)
next
  fix src r rss rest gd fl and st :: fs_state
  assume a: "result_of e src = Inr r \<and> modified r \<and> parseString e (xml r) = Inr (rss # rest)
         \<and> item_guid rss = Some gd
         \<and> items_root st (replace_first ''.json'' '''' fl, getHash gd) = None"
  then have 1: "result_of e src = Inr r" and 2: "modified r"
    and 3: "parseString e (xml r) = Inr (rss # rest)" and 4: "item_guid rss = Some gd"
    and 5: "items_root st (replace_first ''.json'' '''' fl, getHash gd) = None"
    by simp_all
  from cycle_fs_writes_first [OF 1 2 3 4 5]
  show "\<exists>d. items_root (cycle_fs e fl src st) (replace_first ''.json'' '''' fl, getHash gd)
                = Some d
              \<and> title d =
                  Some (wrapTitle (js_or_str (rss_title rss) ''No Title'')
                          (js_or_str (rss_link rss) ''#''))"
    by (simp add: prettifyItem_def new_item_def)
qed

theorem title_not_sanitized_witness:
  "title (prettifyItem (example_env (Rejects []) [])
            (new_item (example_env (Rejects []) []) 0
               ((example_item ''g1'' ''<script>alert(1)</script>'' None)
                  \<lparr>rss_link := Some ''x\" onclick=\"alert(1)''\<rparr>) ''g1'') ''s'')
   = Some ''<h1><a href=\"x\" onclick=\"alert(1)\" target=\"_blank\"><script>alert(1)</script></a></h1>''
   \<and> (\<exists>d. items_root
            (cycle_fs
               ((example_env (Resolves (example_response None))
                   [example_item ''g1'' ''<script>alert(1)</script>'' None])
                  \<lparr>sanitizeHtml := (\<lambda>s opts. '''')\<rparr>)
               ''s.json'' example_source empty_fs)
            (''s'', getHash ''g1'') = Some d
          \<and> title d = Some ''<h1><a href=\"#\" target=\"_blank\"><script>alert(1)</script></a></h1>'')"
proof -
  let ?e = "example_env (Rejects []) []"
  let ?it = "new_item ?e 0
               ((example_item ''g1'' ''<script>alert(1)</script>'' None)
                  \<lparr>rss_link := Some ''x\" onclick=\"alert(1)''\<rparr>) ''g1''"
  from title_not_sanitized [of ?e ?it "''s''"]
  have "\<forall>t l. title ?it = Some t \<and> link ?it = Some l \<and> t \<noteq> [] \<and> l \<noteq> [] \<and> CHR '' '' \<notin> set t \<longrightarrow>
         title (prettifyItem ?e ?it ''s'') =
           Some (''<h1><a href=\"'' @ l @ ''\" target=\"_blank\">'' @ t @ ''</a></h1>'')"
    by blast
  from this [rule_format, of "''<script>alert(1)</script>''" "''x\" onclick=\"alert(1)''"]
  have first: "title (prettifyItem ?e ?it ''s'')
      = Some ''<h1><a href=\"x\" onclick=\"alert(1)\" target=\"_blank\"><script>alert(1)</script></a></h1>''"
    by (simp add: new_item_def example_item_def)
  let ?rss = "example_item ''g1'' ''<script>alert(1)</script>'' None"
  let ?e2 = "(example_env (Resolves (example_response None)) [?rss])
               \<lparr>sanitizeHtml := (\<lambda>s opts. '''')\<rparr>"
  let ?r = "\<lparr>modified = True, xml = Some ''<rss></rss>'', res_etag = None,
             res_lastModified = None, error = None\<rparr>"
  have "result_of ?e2 example_source = Inr ?r \<and> modified ?r
          \<and> parseString ?e2 (xml ?r) = Inr (?rss # [])
          \<and> item_guid ?rss = Some ''g1''
          \<and> items_root empty_fs (replace_first ''.json'' '''' ''s.json'', getHash ''g1'') = None"
    by (simp add: fetchFeed_cases example_env_def example_response_def ok_def example_item_guid
        empty_fs_def)
  from title_not_sanitized [of ?e2 ?it "''s''", THEN conjunct2, THEN conjunct2, THEN conjunct2,
      THEN conjunct2, rule_format, OF this]
  have "\<exists>d. items_root (cycle_fs ?e2 ''s.json'' example_source empty_fs) (''s'', getHash ''g1'')
              = Some d
            \<and> title d = Some (wrapTitle ''<script>alert(1)</script>'' ''#'')"
    by (simp add: example_item_def js_or_str_def)
  then have "\<exists>d. items_root (cycle_fs ?e2 ''s.json'' example_source empty_fs)
                 (''s'', getHash ''g1'') = Some d
            \<and> title d = Some ''<h1><a href=\"#\" target=\"_blank\"><script>alert(1)</script></a></h1>''"
    by (simp add: wrapTitle_no_space)
  with first show ?thesis by blast
qed

text \<open>
  Claim C8, at a publish date that parses to 0, the epoch itself. \<open>Date.parse\<close> returns
  the number 0, which \<open>||\<close> takes for false, so the stored timestamp is the time of the
  run and not the parsed date.
\<close>

theorem timestamp_epoch_zero:
  "Date_parse (example_env (Resolves (example_response None)) [])
     (js_to_string (rss_pubDate (example_item ''g1'' ''T'' (Some ''Thu, 01 Jan 1970 00:00:00 GMT''))))
     = Num 0
   \<and> timestamp (prettifyItem (example_env (Resolves (example_response None)) [])
        (new_item (example_env (Resolves (example_response None)) []) 0
           (example_item ''g1'' ''T'' (Some ''Thu, 01 Jan 1970 00:00:00 GMT'')) ''g1'') ''s'')
     = 1700000000000"
  by (simp add: prettifyItem_def new_item_def example_item_def example_env_def js_to_string_def
      js_or_num_def)

text \<open>Away from 0 the timestamp is as the claim says.\<close>

lemma timestamp_parsed:
  "Date_parse e (js_to_string (rss_pubDate it)) = Num n \<Longrightarrow> n \<noteq> 0 \<Longrightarrow>
   timestamp (prettifyItem e (new_item e i it gd) sh) = n"
  by (simp add: prettifyItem_def new_item_def js_or_num_def)

lemma timestamp_unparseable:
  "Date_parse e (js_to_string (rss_pubDate it)) = NaN \<Longrightarrow>
   timestamp (prettifyItem e (new_item e i it gd) sh) = Date_now e i"
  by (simp add: prettifyItem_def new_item_def js_or_num_def)

section \<open>The wrapper of the sanitizer\<close>

text \<open>
  \<open>cleanHtml\<close> returns the empty string for an absent or empty input without calling the
  package, and hands every other input to the package with the two allow-lists.
\<close>

lemma cleanHtml_absent: "cleanHtml sn None = '''' \<and> cleanHtml sn (Some '''') = ''''"
  by (simp add: cleanHtml_def truthy_def)

lemma cleanHtml_present:
  "s \<noteq> [] \<Longrightarrow>
   cleanHtml sn (Some s) = sn s \<lparr>allowedTags = ALLOWED_TAGS, allowedAttributes = ALLOWED_ATTRIBUTES\<rparr>"
  by (simp add: cleanHtml_def truthy_def)

section \<open>Writing item documents\<close>










end
